theory Spec2Isabelle
  imports Main "HOL-Library.Sublist"
begin

section \<open>Python values, exceptions and strings\<close>

text \<open>
  The agent of \<^verbatim>\<open>form_filling_agent.py\<close> drives a browser through Selenium and asks a
  language model twice: for a mapping from form fields to values, and for a go/no-go
  verdict before submission.  The browser and the model are outside the program; they
  are parameters of the embedding below.  Every exception the program can meet is a
  value of \<open>error\<close>; all of them are subclasses of Python's \<^verbatim>\<open>Exception\<close>
  (\<^verbatim>\<open>KeyboardInterrupt\<close> and \<^verbatim>\<open>SystemExit\<close>, which are not, are left out).  The pauses
  of \<^verbatim>\<open>time.sleep\<close> are left out as well.
\<close>

datatype error =
    NoSuchElementException
  | JSONDecodeError
  | AttributeError
  | TypeError
  | OtherException string

text \<open>
  A value stored under a key of a parsed JSON object.  The program inspects such a value
  only through \<^verbatim>\<open>is None\<close>, \<^verbatim>\<open>==\<close> against \<^verbatim>\<open>""\<close>, \<^verbatim>\<open>True\<close> and a few string literals, and
  \<^verbatim>\<open>str()\<close>.  A float is therefore kept as the text \<^verbatim>\<open>repr\<close> prints for it (the float
  \<^verbatim>\<open>1.0\<close> prints as \<^verbatim>\<open>1.0\<close> and no other float does), and a nested list or object as the
  text \<^verbatim>\<open>str()\<close> gives.
\<close>

datatype pyval =
    PNone
  | PBool bool
  | PInt int
  | PFloat string
  | PStr string
  | PContainer string

text \<open>
  What \<^verbatim>\<open>json.loads\<close> returns and what \<^verbatim>\<open>analyze_form\<close> hands to \<^verbatim>\<open>fill_form\<close>: a
  dictionary, with its items in insertion order, or any other Python object.  The keys
  of a Python dictionary are distinct; nothing below needs that, so the theorems hold
  for every list of items.
\<close>

datatype pyobj =
    PyDict "(string \<times> pyval) list"
  | PyOther pyval

text \<open>
  Two kinds of Python text occur.  The replies of the oracle are trimmed, searched and
  sliced, so they are lists of code points (natural numbers): every reply can be
  written.  The identifiers, attribute values and values of a mapping are only
  compared and concatenated (and lower-cased, in the radio branch); they are Isabelle
  strings, in which a character stands for a code point below 256.  \<open>codes\<close> gives the
  code points of a literal of the program.
\<close>

type_synonym pytext = "nat list"

definition codes :: "string \<Rightarrow> pytext" where
  "codes s = map of_char s"

text \<open>
  \<^verbatim>\<open>str.isspace\<close>, which is what \<^verbatim>\<open>str.strip()\<close> removes: the code points 9--13, 28--32,
  U+0085, U+00A0, U+1680, U+2000--U+200A, U+2028, U+2029, U+202F, U+205F and U+3000.
\<close>

definition isspace :: "nat \<Rightarrow> bool" where
  "isspace c =
     ((9 \<le> c \<and> c \<le> 13) \<or> (28 \<le> c \<and> c \<le> 32) \<or> c = 133 \<or> c = 160 \<or> c = 5760 \<or>
      (8192 \<le> c \<and> c \<le> 8202) \<or> c = 8232 \<or> c = 8233 \<or> c = 8239 \<or> c = 8287 \<or> c = 12288)"

definition strip :: "pytext \<Rightarrow> pytext" where
  "strip s = rev (dropWhile isspace (rev (dropWhile isspace s)))"

definition startswith :: "'a list \<Rightarrow> 'a list \<Rightarrow> bool" where
  "startswith s p = prefix p s"

text \<open>\<^verbatim>\<open>s.find(sub)\<close>: the lowest index at which \<open>sub\<close> occurs, or \<open>-1\<close>.\<close>

fun find_from :: "'a list \<Rightarrow> 'a list \<Rightarrow> nat \<Rightarrow> int" where
  "find_from sub [] i = (if sub = [] then int i else - 1)"
| "find_from sub (c # cs) i =
     (if prefix sub (c # cs) then int i else find_from sub cs (Suc i))"

definition py_find :: "'a list \<Rightarrow> 'a list \<Rightarrow> int" where
  "py_find s sub = find_from sub s 0"

text \<open>\<^verbatim>\<open>s.rfind(sub)\<close>: the highest index at which \<open>sub\<close> occurs, or \<open>-1\<close>.\<close>

fun rfind_from :: "'a list \<Rightarrow> 'a list \<Rightarrow> nat \<Rightarrow> int" where
  "rfind_from sub [] i = (if sub = [] then int i else - 1)"
| "rfind_from sub (c # cs) i =
     (let r = rfind_from sub cs (Suc i)
      in if 0 \<le> r then r else if prefix sub (c # cs) then int i else - 1)"

definition py_rfind :: "'a list \<Rightarrow> 'a list \<Rightarrow> int" where
  "py_rfind s sub = rfind_from sub s 0"

text \<open>\<^verbatim>\<open>sub in s\<close> on strings.\<close>

definition str_contains :: "'a list \<Rightarrow> 'a list \<Rightarrow> bool" where
  "str_contains s sub = (0 \<le> py_find s sub)"

text \<open>\<^verbatim>\<open>s[a:b]\<close>: negative bounds count from the end, and both are clamped to the string.\<close>

definition slice_index :: "nat \<Rightarrow> int \<Rightarrow> nat" where
  "slice_index n i = (let j = (if i < 0 then i + int n else i) in min n (nat j))"

definition py_slice :: "'a list \<Rightarrow> int \<Rightarrow> int \<Rightarrow> 'a list" where
  "py_slice s a b =
     (let lo = slice_index (length s) a; hi = slice_index (length s) b
      in take (hi - lo) (drop lo s))"

text \<open>
  \<^verbatim>\<open>str.lower\<close> on code points below 256.  (Of the code points above, only U+0130 and
  U+212A have an ASCII letter in their lower case, \<open>i\<close> and \<open>k\<close>, which occur in none of
  the words the radio branch looks for.)
\<close>

definition lower_char :: "char \<Rightarrow> char" where
  "lower_char c =
     (let n = (of_char c :: nat)
      in if (65 \<le> n \<and> n \<le> 90) \<or> (192 \<le> n \<and> n \<le> 222 \<and> n \<noteq> 215)
         then char_of (n + 32) else c)"

definition py_lower :: "string \<Rightarrow> string" where
  "py_lower s = map lower_char s"

text \<open>\<^verbatim>\<open>str(value)\<close>.\<close>

fun nat_digits :: "nat \<Rightarrow> string" where
  "nat_digits n =
     (if n < 10 then [char_of (48 + n)]
      else nat_digits (n div 10) @ [char_of (48 + n mod 10)])"

declare nat_digits.simps [simp del]

fun py_str :: "pyval \<Rightarrow> string" where
  "py_str PNone = ''None''"
| "py_str (PBool b) = (if b then ''True'' else ''False'')"
| "py_str (PInt i) = (if i < 0 then ''-'' @ nat_digits (nat (- i)) else nat_digits (nat i))"
| "py_str (PFloat r) = r"
| "py_str (PStr s) = s"
| "py_str (PContainer r) = r"

text \<open>
  \<^verbatim>\<open>value == True\<close> and \<^verbatim>\<open>value == "<literal>"\<close>.  Python compares numbers by value, so
  the integer \<open>1\<close> and the float \<open>1.0\<close> equal \<^verbatim>\<open>True\<close>; a string equals only the same string.
\<close>

fun eq_true :: "pyval \<Rightarrow> bool" where
  "eq_true (PBool b) = b"
| "eq_true (PInt i) = (i = 1)"
| "eq_true (PFloat r) = (r = ''1.0'')"
| "eq_true _ = False"

fun eq_str :: "pyval \<Rightarrow> string \<Rightarrow> bool" where
  "eq_str (PStr s) t = (s = t)"
| "eq_str _ t = False"

text \<open>Truthiness of an attribute value (\<^verbatim>\<open>None\<close> and \<^verbatim>\<open>""\<close> are falsy).\<close>

fun truthy :: "string option \<Rightarrow> bool" where
  "truthy None = False"
| "truthy (Some s) = (s \<noteq> [])"

text \<open>\<^verbatim>\<open>d[k] = v\<close> on a dictionary kept in insertion order.\<close>

fun dict_set :: "(string \<times> 'v) list \<Rightarrow> string \<Rightarrow> 'v \<Rightarrow> (string \<times> 'v) list" where
  "dict_set [] k v = [(k, v)]"
| "dict_set ((k', v') # kvs) k v =
     (if k' = k then (k, v) # kvs else (k', v') # dict_set kvs k v)"


section \<open>The browser session, the log and the program monad\<close>

datatype strategy = ById | ByName | ByXPath

text \<open>
  The document collaborator: the calls the program makes on \<^verbatim>\<open>self.driver\<close>, on a
  \<^verbatim>\<open>WebElement\<close> and on a \<^verbatim>\<open>Select\<close>.  \<open>'w\<close> is the state of the browser, \<open>'e\<close> the type of
  element handles.  Reads return a value or raise; mutations return the new browser
  state as well, also when they raise.  Nothing is assumed about what these calls do.
\<close>

record ('w, 'e) driver =
  page_source :: "'w \<Rightarrow> error + string"
  find_element :: "strategy \<Rightarrow> string \<Rightarrow> 'w \<Rightarrow> error + 'e"
  find_elements :: "strategy \<Rightarrow> string \<Rightarrow> 'w \<Rightarrow> error + 'e list"
  find_child :: "'e \<Rightarrow> strategy \<Rightarrow> string \<Rightarrow> 'w \<Rightarrow> error + 'e"
  get_attribute :: "'e \<Rightarrow> string \<Rightarrow> 'w \<Rightarrow> error + string option"
  element_text :: "'e \<Rightarrow> 'w \<Rightarrow> error + string"
  tag_name :: "'e \<Rightarrow> 'w \<Rightarrow> error + string"
  is_selected :: "'e \<Rightarrow> 'w \<Rightarrow> error + bool"
  select_init :: "'e \<Rightarrow> 'w \<Rightarrow> error + unit"
  click :: "'e \<Rightarrow> 'w \<Rightarrow> (error + unit) \<times> 'w"
  clear :: "'e \<Rightarrow> 'w \<Rightarrow> (error + unit) \<times> 'w"
  send_keys :: "'e \<Rightarrow> string \<Rightarrow> 'w \<Rightarrow> (error + unit) \<times> 'w"
  select_by_visible_text :: "'e \<Rightarrow> string \<Rightarrow> 'w \<Rightarrow> (error + unit) \<times> 'w"
  select_by_value :: "'e \<Rightarrow> string \<Rightarrow> 'w \<Rightarrow> (error + unit) \<times> 'w"

text \<open>The mutating calls the program issues, each recorded when it is made.\<close>

datatype 'e action =
    Click 'e
  | Clear 'e
  | SendKeys 'e string
  | SelectByVisibleText 'e string
  | SelectByValue 'e string

text \<open>
  The warnings and errors the program logs; a constructor names the \<^verbatim>\<open>logger\<close> call and
  carries what its message is formatted from.  Messages of level \<^verbatim>\<open>info\<close> are not
  recorded.
\<close>

datatype log_entry =
    WarnParentText error
  | ErrorProcessingElement nat error
  | ErrorJSONParsing error
  | ErrorCouldNotParse pytext
  | ErrorLLMRequest error
  | WarnCouldNotFind string
  | WarnCouldNotSelect pyval string
  | ErrorFillingField string error
  | WarnAdvisedAgainst pytext
  | ErrorDuringSubmission error
  | WarnNoSubmitButton

text \<open>
  The state a run threads through: the browser, the mutating calls issued so far, each
  with the browser state it was issued in, and the log.
\<close>

record ('w, 'e) state =
  doc :: 'w
  issued :: "('w \<times> 'e action) list"
  logged :: "log_entry list"

text \<open>The state a run starts in.\<close>

definition start :: "'w \<Rightarrow> ('w, 'e) state" where
  "start w = \<lparr> doc = w, issued = [], logged = [] \<rparr>"

type_synonym ('w, 'e, 'a) prog = "('w, 'e) state \<Rightarrow> (error + 'a) \<times> ('w, 'e) state"

definition returnP :: "'a \<Rightarrow> ('w, 'e, 'a) prog" where
  "returnP x s = (Inr x, s)"

definition raiseP :: "error \<Rightarrow> ('w, 'e, 'a) prog" where
  "raiseP e s = (Inl e, s)"

definition bindP :: "('w, 'e, 'a) prog \<Rightarrow> ('a \<Rightarrow> ('w, 'e, 'b) prog) \<Rightarrow> ('w, 'e, 'b) prog" where
  "bindP m f s = (case m s of (Inl e, s') \<Rightarrow> (Inl e, s') | (Inr x, s') \<Rightarrow> f x s')"

text \<open>\<^verbatim>\<open>try: m except Exception as e: h e\<close> (a bare \<^verbatim>\<open>except:\<close> is the same here).\<close>

definition catchP :: "('w, 'e, 'a) prog \<Rightarrow> (error \<Rightarrow> ('w, 'e, 'a) prog) \<Rightarrow> ('w, 'e, 'a) prog" where
  "catchP m h s = (case m s of (Inl e, s') \<Rightarrow> h e s' | (Inr x, s') \<Rightarrow> (Inr x, s'))"

text \<open>\<^verbatim>\<open>try: m except NoSuchElementException: h\<close>; any other exception propagates.\<close>

definition catch_no_such :: "('w, 'e, 'a) prog \<Rightarrow> ('w, 'e, 'a) prog \<Rightarrow> ('w, 'e, 'a) prog" where
  "catch_no_such m h s =
     (case m s of
        (Inl e, s') \<Rightarrow> if e = NoSuchElementException then h s' else (Inl e, s')
      | (Inr x, s') \<Rightarrow> (Inr x, s'))"

definition query :: "('w \<Rightarrow> error + 'a) \<Rightarrow> ('w, 'e, 'a) prog" where
  "query q s = (q (doc s), s)"

definition command :: "'e action \<Rightarrow> ('w \<Rightarrow> (error + unit) \<times> 'w) \<Rightarrow> ('w, 'e, unit) prog" where
  "command a c s =
     (case c (doc s) of
        (r, w') \<Rightarrow> (r, s\<lparr>doc := w', issued := issued s @ [(doc s, a)]\<rparr>))"

definition log_msg :: "log_entry \<Rightarrow> ('w, 'e, unit) prog" where
  "log_msg l s = (Inr (), s\<lparr>logged := logged s @ [l]\<rparr>)"


section \<open>The form filler\<close>

definition quote :: char where
  "quote = CHR 0x27"

definition placeholder_xpath :: "string \<Rightarrow> string" where
  "placeholder_xpath field_id = ''//input[@placeholder='' @ [quote] @ field_id @ [quote] @ '']''"

text \<open>
  Lines 192--203 of \<^verbatim>\<open>fill_form\<close>: the nested \<^verbatim>\<open>try\<close> blocks that look the element up by
  id, then by name, then by placeholder.  \<open>None\<close> is the \<^verbatim>\<open>continue\<close> of the innermost
  handler.
\<close>

definition find_field :: "('w, 'e) driver \<Rightarrow> string \<Rightarrow> ('w, 'e, 'e option) prog" where
  "find_field drv field_id =
     catch_no_such (bindP (query (find_element drv ById field_id)) (\<lambda>el. returnP (Some el)))
       (catch_no_such (bindP (query (find_element drv ByName field_id)) (\<lambda>el. returnP (Some el)))
          (catch_no_such
             (bindP (query (find_element drv ByXPath (placeholder_xpath field_id)))
                (\<lambda>el. returnP (Some el)))
             (bindP (log_msg (WarnCouldNotFind field_id)) (\<lambda>_. returnP None))))"

text \<open>\<^verbatim>\<open>value in [True, "yes", "Y", "true"]\<close>.\<close>

definition checkbox_value :: "pyval \<Rightarrow> bool" where
  "checkbox_value v = (eq_true v \<or> eq_str v ''yes'' \<or> eq_str v ''Y'' \<or> eq_str v ''true'')"

text \<open>
  The truth value as the specification words it: boolean \<^verbatim>\<open>true\<close> and the strings
  \<^verbatim>\<open>"yes"\<close>, \<^verbatim>\<open>"Y"\<close>, \<^verbatim>\<open>"true"\<close> denote true, every other value false.  It is compared with
  \<open>checkbox_value\<close>, the test the program makes.
\<close>

definition spec_truth_value :: "pyval \<Rightarrow> bool" where
  "spec_truth_value v = (v = PBool True \<or> v = PStr ''yes'' \<or> v = PStr ''Y'' \<or> v = PStr ''true'')"

text \<open>\<^verbatim>\<open>str(value).lower() in ["true", "yes", "y", "1"]\<close>.\<close>

definition radio_value :: "pyval \<Rightarrow> bool" where
  "radio_value v = (py_lower (py_str v) \<in> set [''true'', ''yes'', ''y'', ''1''])"

text \<open>Lines 205--227: the dispatch on the type of the element found.\<close>

definition inject :: "('w, 'e) driver \<Rightarrow> string \<Rightarrow> pyval \<Rightarrow> 'e \<Rightarrow> ('w, 'e, unit) prog" where
  "inject drv field_id v el =
     bindP (query (get_attribute drv el ''type'')) (\<lambda>element_type.
       if element_type = Some ''checkbox'' then
         (if checkbox_value v then
            bindP (query (is_selected drv el)) (\<lambda>sel.
              if \<not> sel then command (Click el) (click drv el) else returnP ())
          else returnP ())
       else if element_type = Some ''radio'' then
         (if radio_value v then command (Click el) (click drv el) else returnP ())
       else
         bindP (query (tag_name drv el)) (\<lambda>tag.
           if tag = ''select'' then
             bindP (query (select_init drv el)) (\<lambda>_.
               catchP (command (SelectByVisibleText el (py_str v))
                         (select_by_visible_text drv el (py_str v)))
                 (\<lambda>_. catchP (command (SelectByValue el (py_str v))
                                (select_by_value drv el (py_str v)))
                        (\<lambda>_. log_msg (WarnCouldNotSelect v field_id))))
           else
             bindP (command (Clear el) (clear drv el)) (\<lambda>_.
               command (SendKeys el (py_str v)) (send_keys drv el (py_str v)))))"

text \<open>Lines 187--230: the body of the \<^verbatim>\<open>try\<close> of one iteration.\<close>

definition fill_field :: "('w, 'e) driver \<Rightarrow> string \<Rightarrow> pyval \<Rightarrow> ('w, 'e, unit) prog" where
  "fill_field drv field_id v =
     (if v = PNone \<or> eq_str v [] then returnP ()
      else bindP (find_field drv field_id) (\<lambda>found.
             case found of
               None \<Rightarrow> returnP ()
             | Some el \<Rightarrow> inject drv field_id v el))"

text \<open>One iteration of the loop: the body under its \<^verbatim>\<open>except Exception\<close>.\<close>

definition fill_item :: "('w, 'e) driver \<Rightarrow> string \<times> pyval \<Rightarrow> ('w, 'e, unit) prog" where
  "fill_item drv kv =
     catchP (fill_field drv (fst kv) (snd kv)) (\<lambda>e. log_msg (ErrorFillingField (fst kv) e))"

fun fill_items :: "('w, 'e) driver \<Rightarrow> (string \<times> pyval) list \<Rightarrow> ('w, 'e, unit) prog" where
  "fill_items drv [] = returnP ()"
| "fill_items drv (kv # kvs) = bindP (fill_item drv kv) (\<lambda>_. fill_items drv kvs)"

text \<open>
  \<^verbatim>\<open>fill_form\<close>: \<^verbatim>\<open>mapping_strategy.items()\<close> exists for a dictionary only; on any other
  object the attribute lookup raises outside the \<^verbatim>\<open>try\<close>.
\<close>

fun fill_form :: "('w, 'e) driver \<Rightarrow> pyobj \<Rightarrow> ('w, 'e, unit) prog" where
  "fill_form drv (PyDict kvs) = fill_items drv kvs"
| "fill_form drv (PyOther v) = raiseP AttributeError"


text \<open>
  The element a call is made on; and what a click must never land on: an element whose
  type reads \<^verbatim>\<open>checkbox\<close> and which is selected.
\<close>

fun target :: "'e action \<Rightarrow> 'e" where
  "target (Click e) = e"
| "target (Clear e) = e"
| "target (SendKeys e t) = e"
| "target (SelectByVisibleText e t) = e"
| "target (SelectByValue e t) = e"

definition checked_checkbox :: "('w, 'e) driver \<Rightarrow> 'e \<Rightarrow> 'w \<Rightarrow> bool" where
  "checked_checkbox drv e w =
     (get_attribute drv e ''type'' w = Inr (Some ''checkbox'') \<and> is_selected drv e w = Inr True)"


section \<open>The semantic mapper\<close>

text \<open>One entry of \<^verbatim>\<open>element_details\<close> (lines 97--104).\<close>

record element_detail =
  d_type :: "string option"
  d_id :: "string option"
  d_name :: "string option"
  d_label :: string
  d_placeholder :: "string option"
  d_parent_text :: string

text \<open>
  The reasoning oracle.  A request either raises (also when the response has no
  choice to read) or yields \<^verbatim>\<open>response.choices[0].message.content\<close>, which may be
  \<^verbatim>\<open>None\<close>.  What the model answers is not the program's to decide: it is an arbitrary
  function of what the prompt is built from.  The data profile, the other part of both
  prompts, is the same throughout a run; the embedding takes it to be a profile that
  \<^verbatim>\<open>json.dumps\<close> prints, as the built-in sample is, so that the prompts of lines 113 and
  271 are built and the requests are made.
\<close>

datatype prompt =
    MappingPrompt "element_detail list"
  | VerdictPrompt "(string \<times> pyval) list"

datatype completion =
    Failure error
  | Content "pytext option"

text \<open>
  An agent: its browser, its oracle, \<^verbatim>\<open>json.loads\<close> (which raises \<open>JSONDecodeError\<close> on
  text that is not JSON), \<^verbatim>\<open>json.dumps\<close> with \<^verbatim>\<open>indent=2\<close> on what was parsed (line 168;
  it raises \<^verbatim>\<open>RecursionError\<close> on an object nested too deeply, which \<^verbatim>\<open>json.loads\<close> may
  still have accepted), and the attribute \<^verbatim>\<open>create_fallback_mapping\<close> that line 175
  looks up on \<^verbatim>\<open>self\<close>.  Class \<^verbatim>\<open>FormFillingAgent\<close> has no base class and defines
  \<^verbatim>\<open>__init__\<close>, \<^verbatim>\<open>navigate_to_form\<close>, \<^verbatim>\<open>analyze_form\<close>, \<^verbatim>\<open>fill_form\<close>, \<^verbatim>\<open>submit_form\<close> and
  \<^verbatim>\<open>run\<close> only, so on an agent made by the program the attribute is absent (\<open>None\<close>)
  and the lookup raises \<open>AttributeError\<close>.
\<close>

record ('w, 'e) agent =
  driver :: "('w, 'e) driver"
  chat :: "prompt \<Rightarrow> completion"
  json_loads :: "pytext \<Rightarrow> error + pyobj"
  json_dumps :: "pyobj \<Rightarrow> error + pytext"
  create_fallback_mapping :: "(element_detail list \<Rightarrow> error + pyobj) option"

definition ask :: "completion \<Rightarrow> ('w, 'e, pytext option) prog" where
  "ask c = (case c of Failure e \<Rightarrow> raiseP e | Content r \<Rightarrow> returnP r)"

definition controls_xpath :: string where
  "controls_xpath = ''//input | //select | //textarea''"

definition label_xpath :: "string \<Rightarrow> string" where
  "label_xpath element_id = ''//label[@for='' @ [quote] @ element_id @ [quote] @ '']''"

text \<open>Lines 65--104: the body of the \<^verbatim>\<open>try\<close> that describes one element.\<close>

definition describe_element :: "('w, 'e) driver \<Rightarrow> 'e \<Rightarrow> ('w, 'e, element_detail) prog" where
  "describe_element drv el =
     bindP (query (get_attribute drv el ''type'')) (\<lambda>element_type.
     bindP (query (get_attribute drv el ''id'')) (\<lambda>element_id.
     bindP (query (get_attribute drv el ''name'')) (\<lambda>element_name.
     bindP (case element_id of
              None \<Rightarrow> returnP []
            | Some i \<Rightarrow>
                if i = [] then returnP []
                else bindP (query (find_elements drv ByXPath (label_xpath i))) (\<lambda>label_elements.
                       case label_elements of
                         [] \<Rightarrow> returnP []
                       | l # _ \<Rightarrow> query (element_text drv l))) (\<lambda>element_label_text.
     bindP (query (get_attribute drv el ''placeholder'')) (\<lambda>placeholder.
     bindP (catchP (bindP (query (find_child drv el ByXPath ''./parent::*''))
                      (\<lambda>parent. query (element_text drv parent)))
              (\<lambda>e. bindP (log_msg (WarnParentText e)) (\<lambda>_. returnP []))) (\<lambda>parent_text.
     returnP \<lparr> d_type = element_type, d_id = element_id, d_name = element_name,
               d_label = element_label_text, d_placeholder = placeholder,
               d_parent_text = parent_text \<rparr>))))))"

text \<open>Lines 62--107: the loop over the elements; one that raises is logged and left out.\<close>

fun collect_details ::
  "('w, 'e) driver \<Rightarrow> nat \<Rightarrow> 'e list \<Rightarrow> ('w, 'e, element_detail list) prog" where
  "collect_details drv idx [] = returnP []"
| "collect_details drv idx (el # els) =
     bindP (catchP (bindP (describe_element drv el) (\<lambda>d. returnP [d]))
              (\<lambda>e. bindP (log_msg (ErrorProcessingElement idx e)) (\<lambda>_. returnP [])))
       (\<lambda>d. bindP (collect_details drv (Suc idx) els) (\<lambda>ds. returnP (d @ ds)))"

text \<open>Lines 54--110: what \<^verbatim>\<open>analyze_form\<close> does before it asks the oracle.\<close>

definition introspect :: "('w, 'e) driver \<Rightarrow> ('w, 'e, element_detail list) prog" where
  "introspect drv =
     bindP (query (page_source drv)) (\<lambda>page_source.
     bindP (query (find_elements drv ByXPath controls_xpath)) (\<lambda>form_elements.
     collect_details drv 1 form_elements))"

text \<open>The code fence, three backticks, and the line feed.\<close>

definition fence :: pytext where
  "fence = [96, 96, 96]"

definition LF :: nat where
  "LF = 10"

text \<open>Lines 150--159: the text handed to \<^verbatim>\<open>json.loads\<close>.\<close>

definition clean_response :: "pytext \<Rightarrow> pytext" where
  "clean_response raw_content =
     (let cleaned_content = strip raw_content
      in if startswith cleaned_content (fence @ codes ''json'') then
           (let json_start = py_find cleaned_content [LF] + 1;
                json_end = py_rfind cleaned_content fence
            in if json_end > json_start
               then strip (py_slice cleaned_content json_start json_end)
               else cleaned_content)
         else cleaned_content)"

text \<open>
  Lines 164--175: the inner \<^verbatim>\<open>try\<close> with its \<^verbatim>\<open>except json.JSONDecodeError\<close>.  On
  success line 168 prints the mapping for the log with \<^verbatim>\<open>json.dumps\<close>, which may raise; the
  handler logs twice (lines 171 and 172) before it looks the fallback up.
\<close>

definition parse_mapping ::
  "('w, 'e) agent \<Rightarrow> element_detail list \<Rightarrow> pytext \<Rightarrow> ('w, 'e, pyobj) prog" where
  "parse_mapping ag element_details cleaned_content =
     (case json_loads ag cleaned_content of
        Inr mapping_strategy \<Rightarrow>
          (case json_dumps ag mapping_strategy of
             Inl e \<Rightarrow> raiseP e
           | Inr printed \<Rightarrow> returnP mapping_strategy)
      | Inl e \<Rightarrow>
          if e = JSONDecodeError then
            bindP (log_msg (ErrorJSONParsing e)) (\<lambda>_.
            bindP (log_msg (ErrorCouldNotParse cleaned_content)) (\<lambda>_.
              case create_fallback_mapping ag of
                None \<Rightarrow> raiseP AttributeError
              | Some fallback \<Rightarrow>
                  (case fallback element_details of
                     Inl e' \<Rightarrow> raiseP e'
                   | Inr m \<Rightarrow> returnP m)))
          else raiseP e)"

text \<open>
  Lines 133--179: the outer \<^verbatim>\<open>try\<close>.  Its handler logs and falls off the end of the
  function, which returns \<^verbatim>\<open>None\<close>.
\<close>

definition request_mapping ::
  "('w, 'e) agent \<Rightarrow> element_detail list \<Rightarrow> ('w, 'e, pyobj) prog" where
  "request_mapping ag element_details =
     catchP
       (bindP (ask (chat ag (MappingPrompt element_details))) (\<lambda>raw_content.
          case raw_content of
            None \<Rightarrow> raiseP AttributeError
          | Some r \<Rightarrow> parse_mapping ag element_details (clean_response r)))
       (\<lambda>e. bindP (log_msg (ErrorLLMRequest e)) (\<lambda>_. returnP (PyOther PNone)))"

definition analyze_form :: "('w, 'e) agent \<Rightarrow> ('w, 'e, pyobj) prog" where
  "analyze_form ag = bindP (introspect (driver ag)) (request_mapping ag)"


section \<open>The submission gate\<close>

definition submit_selectors :: "string list" where
  "submit_selectors =
     [''//button[@type='submit']'',
      ''//input[@type='submit']'',
      ''//button[contains(text(), 'Submit')]'',
      ''//button[contains(text(), 'send')]'',
      ''//button[contains(@class, 'submit')]'',
      ''//input[contains(@value, 'Submit')]'']"

definition bindE :: "error + 'a \<Rightarrow> ('a \<Rightarrow> error + 'b) \<Rightarrow> error + 'b" where
  "bindE m f = (case m of Inl e \<Rightarrow> Inl e | Inr x \<Rightarrow> f x)"

text \<open>Lines 261--269: what one element adds to \<^verbatim>\<open>form_data\<close>.\<close>

definition form_entry ::
  "('w, 'e) driver \<Rightarrow> 'e \<Rightarrow> (string \<times> pyval) list \<Rightarrow> 'w \<Rightarrow> error + (string \<times> pyval) list" where
  "form_entry drv el form_data w =
     bindE (get_attribute drv el ''id'' w) (\<lambda>i.
     bindE (if truthy i then Inr i else get_attribute drv el ''name'' w) (\<lambda>element_id.
       case element_id of
         None \<Rightarrow> Inr form_data
       | Some k \<Rightarrow>
           if k = [] then Inr form_data
           else
             bindE (get_attribute drv el ''type'' w) (\<lambda>t.
               if t = Some ''checkbox'' then
                 bindE (is_selected drv el w) (\<lambda>sel. Inr (dict_set form_data k (PBool sel)))
               else
                 bindE (get_attribute drv el ''type'' w) (\<lambda>t'.
                   if t' = Some ''radio'' then
                     bindE (is_selected drv el w) (\<lambda>sel.
                       if sel then Inr (dict_set form_data k (PBool True)) else Inr form_data)
                   else
                     bindE (get_attribute drv el ''value'' w) (\<lambda>v.
                       Inr (dict_set form_data k
                              (case v of None \<Rightarrow> PNone | Some x \<Rightarrow> PStr x)))))))"

text \<open>Lines 257--269: the loop that builds \<^verbatim>\<open>form_data\<close>.\<close>

fun read_form_data ::
  "('w, 'e) driver \<Rightarrow> 'e list \<Rightarrow> (string \<times> pyval) list \<Rightarrow> 'w \<Rightarrow> error + (string \<times> pyval) list" where
  "read_form_data drv [] form_data w = Inr form_data"
| "read_form_data drv (el # els) form_data w =
     bindE (form_entry drv el form_data w) (\<lambda>fd. read_form_data drv els fd w)"

text \<open>Lines 253--307: the body of the \<^verbatim>\<open>try\<close> for one selector.\<close>

definition attempt_submit :: "('w, 'e) agent \<Rightarrow> string \<Rightarrow> ('w, 'e, bool) prog" where
  "attempt_submit ag selector =
     bindP (query (find_element (driver ag) ByXPath selector)) (\<lambda>submit_button.
     bindP (query (find_elements (driver ag) ByXPath controls_xpath)) (\<lambda>form_elements.
     bindP (query (read_form_data (driver ag) form_elements [])) (\<lambda>form_data.
     bindP (ask (chat ag (VerdictPrompt form_data))) (\<lambda>decision.
       case decision of
         None \<Rightarrow> raiseP TypeError
       | Some d \<Rightarrow>
           if str_contains d (codes ''PROCEED'') then
             bindP (command (Click submit_button) (click (driver ag) submit_button))
               (\<lambda>_. returnP True)
           else bindP (log_msg (WarnAdvisedAgainst d)) (\<lambda>_. returnP False)))))"

text \<open>
  Lines 251--316: the loop over the selectors.  \<^verbatim>\<open>NoSuchElementException\<close> moves on to
  the next selector, any other exception ends the run with \<^verbatim>\<open>False\<close>.
\<close>

fun submit_loop :: "('w, 'e) agent \<Rightarrow> string list \<Rightarrow> ('w, 'e, bool) prog" where
  "submit_loop ag [] s = bindP (log_msg WarnNoSubmitButton) (\<lambda>_. returnP False) s"
| "submit_loop ag (selector # rest) s =
     (case attempt_submit ag selector s of
        (Inl e, s') \<Rightarrow>
          if e = NoSuchElementException then submit_loop ag rest s'
          else bindP (log_msg (ErrorDuringSubmission e)) (\<lambda>_. returnP False) s'
      | (Inr b, s') \<Rightarrow> (Inr b, s'))"

definition submit_form :: "('w, 'e) agent \<Rightarrow> ('w, 'e, bool) prog" where
  "submit_form ag = submit_loop ag submit_selectors"

text \<open>The verdict: the reply is a text in which \<^verbatim>\<open>"PROCEED"\<close> occurs (line 298).\<close>

definition approves :: "completion \<Rightarrow> bool" where
  "approves c =
     (case c of Content (Some d) \<Rightarrow> str_contains d (codes ''PROCEED'') | _ \<Rightarrow> False)"

text \<open>
  What the snapshot is expected to hold, read off the document: the key a control is
  filed under (its id, or its name when the id is missing or empty), and the state
  recorded for it (the checked state of a checkbox, \<^verbatim>\<open>True\<close> for a selected radio and
  nothing for an unselected one, the value of any other control).
\<close>

definition attribute_text :: "('w, 'e) driver \<Rightarrow> 'e \<Rightarrow> string \<Rightarrow> 'w \<Rightarrow> string" where
  "attribute_text drv el a w =
     (case get_attribute drv el a w of Inr (Some t) \<Rightarrow> t | _ \<Rightarrow> [])"

definition control_key :: "('w, 'e) driver \<Rightarrow> 'e \<Rightarrow> 'w \<Rightarrow> string option" where
  "control_key drv el w =
     (if attribute_text drv el ''id'' w \<noteq> [] then Some (attribute_text drv el ''id'' w)
      else if attribute_text drv el ''name'' w \<noteq> [] then Some (attribute_text drv el ''name'' w)
      else None)"

definition control_state :: "('w, 'e) driver \<Rightarrow> 'e \<Rightarrow> 'w \<Rightarrow> pyval option" where
  "control_state drv el w =
     (if get_attribute drv el ''type'' w = Inr (Some ''checkbox'') then
        (case is_selected drv el w of Inr b \<Rightarrow> Some (PBool b) | Inl e \<Rightarrow> None)
      else if get_attribute drv el ''type'' w = Inr (Some ''radio'') then
        (if is_selected drv el w = Inr True then Some (PBool True) else None)
      else
        (case get_attribute drv el ''value'' w of
           Inr None \<Rightarrow> Some PNone
         | Inr (Some x) \<Rightarrow> Some (PStr x)
         | Inl e \<Rightarrow> None))"

definition record_control ::
  "('w, 'e) driver \<Rightarrow> 'w \<Rightarrow> (string \<rightharpoonup> pyval) \<Rightarrow> 'e \<Rightarrow> (string \<rightharpoonup> pyval)" where
  "record_control drv w m el =
     (case control_key drv el w of
        None \<Rightarrow> m
      | Some k \<Rightarrow> (case control_state drv el w of None \<Rightarrow> m | Some v \<Rightarrow> m(k \<mapsto> v)))"


section \<open>A small document to run the program on\<close>

text \<open>
  A deterministic stand-in for the browser: a page is the list of its elements in
  document order, a handle is a position in that list.  It knows the locators the
  program builds (by id, by name, the scan for controls, the two \<^verbatim>\<open>type='submit'\<close>
  selectors and the placeholder selector); every other XPath finds nothing.  Its
  \<^verbatim>\<open>select\<close> elements have no options, and it has no parent lookup.
\<close>

record node =
  n_tag :: string
  n_type :: "string option"
  n_id :: "string option"
  n_name :: "string option"
  n_placeholder :: "string option"
  n_value :: "string option"
  n_checked :: bool
  n_text :: string

text \<open>The text between the apostrophes of a placeholder locator, if the XPath is one.\<close>

definition placeholder_literal :: "string \<Rightarrow> string option" where
  "placeholder_literal what =
     (let pre = ''//input[@placeholder='' @ [quote]; suf = [quote] @ '']''
      in if prefix pre what \<and> suffix suf what \<and> length pre + length suf \<le> length what
         then Some (take (length what - length pre - length suf) (drop (length pre) what))
         else None)"

definition node_matches :: "strategy \<Rightarrow> string \<Rightarrow> node \<Rightarrow> bool" where
  "node_matches how what n =
     (case how of
        ById \<Rightarrow> n_id n = Some what
      | ByName \<Rightarrow> n_name n = Some what
      | ByXPath \<Rightarrow>
          if what = controls_xpath then n_tag n \<in> set [''input'', ''select'', ''textarea'']
          else if what = ''//button[@type='submit']''
            then n_tag n = ''button'' \<and> n_type n = Some ''submit''
          else if what = ''//input[@type='submit']''
            then n_tag n = ''input'' \<and> n_type n = Some ''submit''
          else (case placeholder_literal what of
                  None \<Rightarrow> False
                | Some lit \<Rightarrow> n_tag n = ''input'' \<and> n_placeholder n = Some lit))"

text \<open>
  An XPath string literal in apostrophes cannot contain an apostrophe.  On the
  placeholder locator of a text with an apostrophe, such as
  \<^verbatim>\<open>//input[@placeholder='Mother's maiden name']\<close>, a browser reports an invalid selector,
  which is not a \<^verbatim>\<open>NoSuchElementException\<close>; so does the stand-in.  (Texts that would make
  the locator another well-formed expression are not among those it is run on.)
\<close>

definition xpath_parses :: "strategy \<Rightarrow> string \<Rightarrow> bool" where
  "xpath_parses how what =
     (case how of
        ByXPath \<Rightarrow> (case placeholder_literal what of None \<Rightarrow> True | Some lit \<Rightarrow> quote \<notin> set lit)
      | _ \<Rightarrow> True)"

definition page_find_all :: "strategy \<Rightarrow> string \<Rightarrow> node list \<Rightarrow> error + nat list" where
  "page_find_all how what pg =
     (if xpath_parses how what
      then Inr (filter (\<lambda>i. node_matches how what (pg ! i)) [0 ..< length pg])
      else Inl (OtherException ''invalid selector''))"

definition page_find :: "strategy \<Rightarrow> string \<Rightarrow> node list \<Rightarrow> error + nat" where
  "page_find how what pg =
     (if xpath_parses how what
      then (case filter (\<lambda>i. node_matches how what (pg ! i)) [0 ..< length pg] of
              [] \<Rightarrow> Inl NoSuchElementException
            | i # _ \<Rightarrow> Inr i)
      else Inl (OtherException ''invalid selector''))"


definition on_node :: "nat \<Rightarrow> (node \<Rightarrow> 'a) \<Rightarrow> node list \<Rightarrow> error + 'a" where
  "on_node i f pg = (if i < length pg then Inr (f (pg ! i)) else Inl (OtherException ''stale element''))"

definition node_attribute :: "string \<Rightarrow> node \<Rightarrow> string option" where
  "node_attribute a n =
     (if a = ''type'' then n_type n
      else if a = ''id'' then n_id n
      else if a = ''name'' then n_name n
      else if a = ''placeholder'' then n_placeholder n
      else if a = ''value'' then n_value n
      else None)"

definition update_node :: "nat \<Rightarrow> (node \<Rightarrow> node) \<Rightarrow> node list \<Rightarrow> (error + unit) \<times> node list" where
  "update_node i f pg =
     (if i < length pg then (Inr (), pg[i := f (pg ! i)])
      else (Inl (OtherException ''stale element''), pg))"

definition click_node :: "node \<Rightarrow> node" where
  "click_node n =
     (if n_type n = Some ''checkbox'' then n\<lparr>n_checked := \<not> n_checked n\<rparr>
      else if n_type n = Some ''radio'' then n\<lparr>n_checked := True\<rparr>
      else n)"

definition page_driver :: "(node list, nat) driver" where
  "page_driver =
     \<lparr> page_source = (\<lambda>pg. Inr (concat (map n_text pg))),
       find_element = page_find,
       find_elements = page_find_all,
       find_child = (\<lambda>i how what pg. Inl NoSuchElementException),
       get_attribute = (\<lambda>i a. on_node i (node_attribute a)),
       element_text = (\<lambda>i. on_node i n_text),
       tag_name = (\<lambda>i. on_node i n_tag),
       is_selected = (\<lambda>i. on_node i n_checked),
       select_init = (\<lambda>i pg.
          if i < length pg \<and> n_tag (pg ! i) = ''select'' then Inr ()
          else Inl (OtherException ''unexpected tag name'')),
       click = (\<lambda>i. update_node i click_node),
       clear = (\<lambda>i pg.
          if i < length pg \<and> n_tag (pg ! i) \<in> set [''input'', ''textarea'']
          then update_node i (\<lambda>n. n\<lparr>n_value := Some []\<rparr>) pg
          else (Inl (OtherException ''invalid element state''), pg)),
       send_keys = (\<lambda>i keys. update_node i
          (\<lambda>n. n\<lparr>n_value := Some ((case n_value n of None \<Rightarrow> [] | Some v \<Rightarrow> v) @ keys)\<rparr>)),
       select_by_visible_text = (\<lambda>i t pg. (Inl NoSuchElementException, pg)),
       select_by_value = (\<lambda>i t pg. (Inl NoSuchElementException, pg)) \<rparr>"

definition text_input :: "string \<Rightarrow> string \<Rightarrow> node" where
  "text_input i v =
     \<lparr> n_tag = ''input'', n_type = Some ''text'', n_id = Some i, n_name = None,
       n_placeholder = None, n_value = Some v, n_checked = False, n_text = [] \<rparr>"

definition checkbox :: "string \<Rightarrow> bool \<Rightarrow> node" where
  "checkbox i c =
     \<lparr> n_tag = ''input'', n_type = Some ''checkbox'', n_id = Some i, n_name = None,
       n_placeholder = None, n_value = Some ''on'', n_checked = c, n_text = [] \<rparr>"

definition submit_button :: node where
  "submit_button =
     \<lparr> n_tag = ''button'', n_type = Some ''submit'', n_id = None, n_name = None,
       n_placeholder = None, n_value = None, n_checked = False, n_text = ''Submit'' \<rparr>"

definition button_with_id :: "string \<Rightarrow> node" where
  "button_with_id i = submit_button\<lparr>n_id := Some i\<rparr>"


definition page_go :: "node list" where
  "page_go = [button_with_id ''go'', text_input ''first_name'' []]"


definition anonymous_input :: "string \<Rightarrow> node" where
  "anonymous_input v = (text_input [] v)\<lparr>n_id := None\<rparr>"

definition radio :: "string \<Rightarrow> bool \<Rightarrow> node" where
  "radio i c = (checkbox i c)\<lparr>n_type := Some ''radio''\<rparr>"

definition page_form :: "node list" where
  "page_form = [text_input ''first_name'' ''Jane'', submit_button]"

definition page_anon :: "node list" where
  "page_anon = [anonymous_input ''secret'', radio ''plan_a'' False]"

text \<open>A radio group filed by name, with its first button selected.\<close>

definition radio_named :: "string \<Rightarrow> bool \<Rightarrow> node" where
  "radio_named n c = (checkbox [] c)\<lparr>n_type := Some ''radio'', n_id := None, n_name := Some n\<rparr>"

definition page_plan :: "node list" where
  "page_plan = [radio_named ''plan'' True, radio_named ''plan'' False, submit_button]"

text \<open>
  A stand-in for \<^verbatim>\<open>json.loads\<close> that knows the texts of a table and rejects every other
  text; it is used only on texts on which it agrees with \<^verbatim>\<open>json.loads\<close>.  The stand-in
  for \<^verbatim>\<open>json.dumps\<close> is right on the empty object, the only one it is given.  The test
  agent is an agent as the program makes it: it has no \<^verbatim>\<open>create_fallback_mapping\<close>.
\<close>

definition loads_table :: "(pytext \<times> pyobj) list \<Rightarrow> pytext \<Rightarrow> error + pyobj" where
  "loads_table known s = (case map_of known s of None \<Rightarrow> Inl JSONDecodeError | Some obj \<Rightarrow> Inr obj)"

definition test_agent :: "completion \<Rightarrow> (node list, nat) agent" where
  "test_agent reply =
     \<lparr> driver = page_driver, chat = (\<lambda>p. reply),
       json_loads = loads_table [(codes ''{}'', PyDict [])],
       json_dumps = (\<lambda>obj. Inr (codes ''{}'')),
       create_fallback_mapping = None \<rparr>"

text \<open>
  Replies: \<^verbatim>\<open>{}\<close> in a plain fence; in a fence marked \<^verbatim>\<open>json\<close>; the latter with blanks
  before it and a line feed after it; and the marked fence with nothing inside.
\<close>

definition plain_fenced :: pytext where
  "plain_fenced = fence @ [LF] @ codes ''{}'' @ [LF] @ fence"

definition json_fenced :: pytext where
  "json_fenced = fence @ codes ''json'' @ [LF] @ codes ''{}'' @ [LF] @ fence"

definition json_fenced_padded :: pytext where
  "json_fenced_padded = codes ''  '' @ json_fenced @ [LF]"

definition empty_fenced :: pytext where
  "empty_fenced = fence @ codes ''json'' @ [LF] @ fence"




section \<open>Evaluation and frame lemmas\<close>

lemmas prog_defs =
  returnP_def raiseP_def bindP_def catchP_def catch_no_such_def query_def command_def log_msg_def

lemmas page_defs =
  page_driver_def page_find_def page_find_all_def node_matches_def on_node_def node_attribute_def
  update_node_def click_node_def text_input_def checkbox_def submit_button_def start_def
  controls_xpath_def placeholder_xpath_def quote_def page_form_def placeholder_literal_def
  xpath_parses_def

lemmas gate_defs =
  submit_form_def submit_selectors_def attempt_submit_def ask_def
  form_entry_def bindE_def str_contains_def py_find_def codes_def

lemma fill_field_skip:
  "v = PNone \<or> v = PStr [] \<Longrightarrow> fill_field drv k v s = (Inr (), s)"
  by (auto simp: fill_field_def returnP_def)

lemma fill_item_skip:
  "v = PNone \<or> v = PStr [] \<Longrightarrow> fill_item drv (k, v) s = (Inr (), s)"
  by (simp add: fill_item_def catchP_def fill_field_skip)

lemma fill_items_Inr: "\<exists>s'. fill_items drv kvs s = (Inr (), s')"
proof (induction kvs arbitrary: s)
  case Nil
  show ?case by (simp add: returnP_def)
next
  case (Cons kv kvs)
  obtain r s1 where step: "fill_item drv kv s = (r, s1)"
    by (cases "fill_item drv kv s")
  have "r = Inr ()"
    using step
    by (auto simp: fill_item_def catchP_def log_msg_def split: prod.splits sum.splits)
  with step Cons.IH [of s1] show ?case
    by (simp add: bindP_def)
qed

lemma fill_items_filter_skip:
  "fill_items drv (filter (\<lambda>kv. snd kv \<noteq> PNone \<and> snd kv \<noteq> PStr []) kvs) s = fill_items drv kvs s"
proof (induction kvs arbitrary: s)
  case Nil
  show ?case by simp
next
  case (Cons kv kvs)
  show ?case
  proof (cases "snd kv = PNone \<or> snd kv = PStr []")
    case True
    then have "fill_item drv kv s = (Inr (), s)"
      using fill_item_skip [of "snd kv" drv "fst kv" s] by simp
    with True Cons.IH show ?thesis
      by (auto simp: bindP_def)
  next
    case False
    with Cons.IH show ?thesis
      by (auto simp: bindP_def split: prod.splits sum.splits)
  qed
qed

lemma inject_issued:
  assumes "inject drv k v el s = (r, s')"
  shows "\<exists>new. issued s' = issued s @ new \<and>
           (\<forall>x\<in>set new. target (snd x) = el \<and>
              (\<forall>e. snd x = Click e \<longrightarrow> \<not> checked_checkbox drv e (fst x)))"
  using assms
  by (auto simp: inject_def bindP_def query_def command_def catchP_def returnP_def log_msg_def
        checked_checkbox_def
      split: sum.splits prod.splits if_splits)

lemma find_field_frame:
  assumes "find_field drv k s = (r, s')"
  shows "issued s' = issued s \<and> doc s' = doc s"
  using assms
  by (auto simp: find_field_def bindP_def query_def catch_no_such_def returnP_def log_msg_def
      split: sum.splits prod.splits if_splits)

lemma fill_field_issued:
  assumes "fill_field drv k v s = (r, s')"
  shows "\<exists>new. issued s' = issued s @ new \<and>
           (\<forall>x\<in>set new. \<forall>e. snd x = Click e \<longrightarrow> \<not> checked_checkbox drv e (fst x))"
proof (cases "v = PNone \<or> v = PStr []")
  case True
  with assms fill_field_skip [of v drv k s] show ?thesis by auto
next
  case False
  then have nv: "\<not> (v = PNone \<or> eq_str v [])" by (cases v) auto
  obtain f s1 where ff: "find_field drv k s = (f, s1)" by (cases "find_field drv k s")
  have fr: "issued s1 = issued s" using find_field_frame [OF ff] by simp
  show ?thesis
  proof (cases f)
    case (Inl e)
    with assms ff nv fr show ?thesis by (auto simp: fill_field_def bindP_def)
  next
    case (Inr found)
    show ?thesis
    proof (cases found)
      case None
      with assms ff nv fr Inr show ?thesis by (auto simp: fill_field_def bindP_def returnP_def)
    next
      case (Some el)
      with assms ff nv Inr have "inject drv k v el s1 = (r, s')"
        by (simp add: fill_field_def bindP_def)
      from inject_issued [OF this] fr show ?thesis by auto
    qed
  qed
qed

lemma fill_item_issued:
  assumes "fill_item drv kv s = (r, s')"
  shows "r = Inr () \<and> (\<exists>new. issued s' = issued s @ new \<and>
           (\<forall>x\<in>set new. \<forall>e. snd x = Click e \<longrightarrow> \<not> checked_checkbox drv e (fst x)))"
proof -
  obtain r1 s1 where f: "fill_field drv (fst kv) (snd kv) s = (r1, s1)"
    by (cases "fill_field drv (fst kv) (snd kv) s")
  from fill_field_issued [OF f] obtain new where
    n: "issued s1 = issued s @ new"
       "\<forall>x\<in>set new. \<forall>e. snd x = Click e \<longrightarrow> \<not> checked_checkbox drv e (fst x)" by blast
  have "r = Inr () \<and> issued s' = issued s1"
    using assms f by (auto simp: fill_item_def catchP_def log_msg_def split: sum.splits)
  with n show ?thesis by auto
qed

lemma fill_items_issued:
  "fill_items drv kvs s = (r, s') \<Longrightarrow>
     \<exists>new. issued s' = issued s @ new \<and>
       (\<forall>x\<in>set new. \<forall>e. snd x = Click e \<longrightarrow> \<not> checked_checkbox drv e (fst x))"
proof (induction kvs arbitrary: s)
  case Nil
  then show ?case by (simp add: returnP_def)
next
  case (Cons kv kvs)
  obtain r1 s1 where st: "fill_item drv kv s = (r1, s1)" by (cases "fill_item drv kv s")
  from fill_item_issued [OF st] obtain new1 where
    a: "r1 = Inr ()" "issued s1 = issued s @ new1"
       "\<forall>x\<in>set new1. \<forall>e. snd x = Click e \<longrightarrow> \<not> checked_checkbox drv e (fst x)" by blast
  from Cons.prems st a(1) have "fill_items drv kvs s1 = (r, s')" by (simp add: bindP_def)
  from Cons.IH [OF this] obtain new2 where
    b: "issued s' = issued s1 @ new2"
       "\<forall>x\<in>set new2. \<forall>e. snd x = Click e \<longrightarrow> \<not> checked_checkbox drv e (fst x)" by blast
  from a b have "issued s' = issued s @ (new1 @ new2)" by simp
  moreover from a b have
    "\<forall>x\<in>set (new1 @ new2). \<forall>e. snd x = Click e \<longrightarrow> \<not> checked_checkbox drv e (fst x)" by auto
  ultimately show ?case by blast
qed

lemma find_field_Some:
  assumes "find_field drv k s = (Inr (Some el), s1)"
  shows "s1 = s"
  using assms
  by (auto simp: find_field_def bindP_def query_def catch_no_such_def returnP_def log_msg_def
      split: sum.splits prod.splits if_splits)

lemma fill_field_checked_checkbox:
  assumes "find_field drv k s = (Inr (Some el), s1)" and "checked_checkbox drv el (doc s)"
  shows "fill_field drv k v s = (Inr (), s)"
proof -
  have d: "s1 = s" using find_field_Some [OF assms(1)] .
  have "inject drv k v el s = (Inr (), s)"
    using assms(2)
    by (simp add: inject_def bindP_def query_def returnP_def checked_checkbox_def)
  with assms(1) d show ?thesis
    by (simp add: fill_field_def bindP_def returnP_def)
qed


lemma fill_field_found:
  "v \<noteq> PNone \<Longrightarrow> v \<noteq> PStr [] \<Longrightarrow> find_field drv k s = (Inr (Some e), s1) \<Longrightarrow>
   fill_field drv k v s = inject drv k v e s1"
  by (cases v) (simp_all add: fill_field_def bindP_def)


lemma fill_items_append:
  "fill_items drv (xs @ ys) s = bindP (fill_items drv xs) (\<lambda>_. fill_items drv ys) s"
proof (induction xs arbitrary: s)
  case Nil
  show ?case by (simp add: bindP_def returnP_def)
next
  case (Cons x xs)
  then show ?case by (auto simp: bindP_def split: prod.splits sum.splits)
qed

lemma fill_item_caught:
  "fill_field drv k v s = (Inl e, s1) \<Longrightarrow>
   fill_item drv (k, v) s = (Inr (), s1\<lparr>logged := logged s1 @ [ErrorFillingField k e]\<rparr>)"
  by (simp add: fill_item_def catchP_def log_msg_def)

lemma fill_item_passed:
  "fill_field drv k v s = (Inr u, s1) \<Longrightarrow> fill_item drv (k, v) s = (Inr (), s1)"
  by (simp add: fill_item_def catchP_def)


lemma checkbox_value_cases:
  "checkbox_value v = (spec_truth_value v \<or> v = PInt 1 \<or> v = PFloat ''1.0'')"
  by (cases v) (auto simp: checkbox_value_def spec_truth_value_def)


lemma attempt_submit_cases:
  assumes "attempt_submit ag sel s = (r, s')"
  shows "(doc s' = doc s \<and> issued s' = issued s \<and> r \<noteq> Inr True) \<or>
         (\<exists>b els fd. find_element (driver ag) ByXPath sel (doc s) = Inr b \<and>
             find_elements (driver ag) ByXPath controls_xpath (doc s) = Inr els \<and>
             read_form_data (driver ag) els [] (doc s) = Inr fd \<and>
             approves (chat ag (VerdictPrompt fd)) \<and>
             issued s' = issued s @ [(doc s, Click b)])"
  using assms
  by (auto simp: attempt_submit_def ask_def approves_def prog_defs
      split: sum.splits prod.splits if_splits option.splits completion.splits)

lemma submit_loop_sound:
  "submit_loop ag sels s = (r, s') \<Longrightarrow>
   \<exists>ok new. r = Inr ok \<and> issued s' = issued s @ new \<and>
     (\<forall>x\<in>set new. \<exists>b sel els fd. snd x = Click b \<and> sel \<in> set sels \<and>
         find_element (driver ag) ByXPath sel (fst x) = Inr b \<and>
         find_elements (driver ag) ByXPath controls_xpath (fst x) = Inr els \<and>
         read_form_data (driver ag) els [] (fst x) = Inr fd \<and>
         approves (chat ag (VerdictPrompt fd))) \<and>
     (new = [] \<longrightarrow> \<not> ok \<and> doc s' = doc s)"
proof (induction sels arbitrary: s)
  case Nil
  then have "r = Inr False \<and> issued s' = issued s @ [] \<and> doc s' = doc s"
    by (auto simp: prog_defs)
  then show ?case by (intro exI [of _ False] exI [of _ "[]"]) simp
next
  case (Cons sel sels)
  obtain r1 s1 where att: "attempt_submit ag sel s = (r1, s1)"
    by (cases "attempt_submit ag sel s")
  from attempt_submit_cases [OF att] show ?case
  proof
    assume quiet: "doc s1 = doc s \<and> issued s1 = issued s \<and> r1 \<noteq> Inr True"
    show ?thesis
    proof (cases r1)
      case (Inl e)
      show ?thesis
      proof (cases "e = NoSuchElementException")
        case True
        with Cons.prems att Inl have "submit_loop ag sels s1 = (r, s')" by simp
        from Cons.IH [OF this] obtain ok new where
          ih: "r = Inr ok" "issued s' = issued s1 @ new"
            "\<forall>x\<in>set new. \<exists>b sel els fd. snd x = Click b \<and> sel \<in> set sels \<and>
               find_element (driver ag) ByXPath sel (fst x) = Inr b \<and>
               find_elements (driver ag) ByXPath controls_xpath (fst x) = Inr els \<and>
               read_form_data (driver ag) els [] (fst x) = Inr fd \<and>
               approves (chat ag (VerdictPrompt fd))"
            "new = [] \<longrightarrow> \<not> ok \<and> doc s' = doc s1" by blast
        from ih(3) have "\<forall>x\<in>set new. \<exists>b sel' els fd. snd x = Click b \<and> sel' \<in> set (sel # sels) \<and>
               find_element (driver ag) ByXPath sel' (fst x) = Inr b \<and>
               find_elements (driver ag) ByXPath controls_xpath (fst x) = Inr els \<and>
               read_form_data (driver ag) els [] (fst x) = Inr fd \<and>
               approves (chat ag (VerdictPrompt fd))"
          by (metis list.set_intros(2))
        with ih quiet show ?thesis by auto
      next
        case False
        with Cons.prems att Inl quiet
        have "r = Inr False \<and> issued s' = issued s @ [] \<and> doc s' = doc s"
          by (auto simp: prog_defs)
        then show ?thesis by (intro exI [of _ False] exI [of _ "[]"]) simp
      qed
    next
      case (Inr ok)
      with Cons.prems att quiet
      have "r = Inr False \<and> issued s' = issued s @ [] \<and> doc s' = doc s"
        by auto
      then show ?thesis by (intro exI [of _ False] exI [of _ "[]"]) simp
    qed
  next
    assume "\<exists>b els fd. find_element (driver ag) ByXPath sel (doc s) = Inr b \<and>
             find_elements (driver ag) ByXPath controls_xpath (doc s) = Inr els \<and>
             read_form_data (driver ag) els [] (doc s) = Inr fd \<and>
             approves (chat ag (VerdictPrompt fd)) \<and>
             issued s1 = issued s @ [(doc s, Click b)]"
    then obtain b els fd where
      cl: "find_element (driver ag) ByXPath sel (doc s) = Inr b"
        "find_elements (driver ag) ByXPath controls_xpath (doc s) = Inr els"
        "read_form_data (driver ag) els [] (doc s) = Inr fd"
        "approves (chat ag (VerdictPrompt fd))"
        "issued s1 = issued s @ [(doc s, Click b)]" by blast
    have first: "\<exists>b' sel' els fd. snd (doc s, Click b) = Click b' \<and> sel' \<in> set (sel # sels) \<and>
               find_element (driver ag) ByXPath sel' (fst (doc s, Click b)) = Inr b' \<and>
               find_elements (driver ag) ByXPath controls_xpath (fst (doc s, Click b)) = Inr els \<and>
               read_form_data (driver ag) els [] (fst (doc s, Click b)) = Inr fd \<and>
               approves (chat ag (VerdictPrompt fd))"
      using cl by auto
    show ?thesis
    proof (cases r1)
      case (Inr ok)
      with Cons.prems att have "r = Inr ok \<and> s' = s1" by simp
      with cl(5) first show ?thesis
        by (intro exI [of _ ok] exI [of _ "[(doc s, Click b)]"]) simp
    next
      case (Inl e)
      show ?thesis
      proof (cases "e = NoSuchElementException")
        case True
        with Cons.prems att Inl have "submit_loop ag sels s1 = (r, s')" by simp
        from Cons.IH [OF this] obtain ok new where
          ih: "r = Inr ok" "issued s' = issued s1 @ new"
            "\<forall>x\<in>set new. \<exists>b sel els fd. snd x = Click b \<and> sel \<in> set sels \<and>
               find_element (driver ag) ByXPath sel (fst x) = Inr b \<and>
               find_elements (driver ag) ByXPath controls_xpath (fst x) = Inr els \<and>
               read_form_data (driver ag) els [] (fst x) = Inr fd \<and>
               approves (chat ag (VerdictPrompt fd))" by blast
        from ih(3) have rest: "\<forall>x\<in>set new. \<exists>b sel' els fd. snd x = Click b \<and> sel' \<in> set (sel # sels) \<and>
               find_element (driver ag) ByXPath sel' (fst x) = Inr b \<and>
               find_elements (driver ag) ByXPath controls_xpath (fst x) = Inr els \<and>
               read_form_data (driver ag) els [] (fst x) = Inr fd \<and>
               approves (chat ag (VerdictPrompt fd))"
          by (metis list.set_intros(2))
        from ih(2) cl(5) have "issued s' = issued s @ ((doc s, Click b) # new)" by simp
        with ih(1) first rest show ?thesis
          by (intro exI [of _ ok] exI [of _ "(doc s, Click b) # new"]) simp
      next
        case False
        with Cons.prems att Inl
        have "r = Inr False \<and> issued s' = issued s1"
          by (auto simp: prog_defs)
        with cl(5) first show ?thesis
          by (intro exI [of _ False] exI [of _ "[(doc s, Click b)]"]) simp
      qed
    qed
  qed
qed


lemma submit_loop_none_found:
  "\<forall>sel\<in>set sels. find_element (driver ag) ByXPath sel (doc s) = Inl NoSuchElementException \<Longrightarrow>
   submit_loop ag sels s = (Inr False, s\<lparr>logged := logged s @ [WarnNoSubmitButton]\<rparr>)"
proof (induction sels)
  case Nil
  show ?case by (simp add: prog_defs)
next
  case (Cons sel sels)
  then have "attempt_submit ag sel s = (Inl NoSuchElementException, s)"
    by (simp add: attempt_submit_def prog_defs)
  with Cons show ?case by simp
qed

















lemma map_of_dict_set: "map_of (dict_set fd k v) = (map_of fd)(k \<mapsto> v)"
  by (induction fd) (auto simp: fun_eq_iff)

lemma set_fst_dict_set: "set (map fst (dict_set fd k v)) = insert k (set (map fst fd))"
proof (induction fd)
  case Nil
  show ?case by simp
next
  case (Cons kv fd)
  obtain a b where kv: "kv = (a, b)" by (cases kv)
  show ?case
  proof (cases "a = k")
    case True
    then show ?thesis by (simp add: kv)
  next
    case False
    with Cons.IH show ?thesis by (simp add: kv insert_commute)
  qed
qed

lemma distinct_dict_set: "distinct (map fst fd) \<Longrightarrow> distinct (map fst (dict_set fd k v))"
proof (induction fd)
  case Nil
  show ?case by simp
next
  case (Cons kv fd)
  then show ?case
    using set_fst_dict_set [of fd k v] by (cases kv) auto
qed

lemma form_entry_records:
  assumes "form_entry drv el fd w = Inr fd'"
  shows "map_of fd' = record_control drv w (map_of fd) el"
  using assms
  by (auto simp: form_entry_def bindE_def record_control_def control_key_def control_state_def
        attribute_text_def map_of_dict_set
      split: sum.splits option.splits if_splits)

lemma form_entry_distinct:
  assumes "form_entry drv el fd w = Inr fd'" and "distinct (map fst fd)"
  shows "distinct (map fst fd')"
  using assms distinct_dict_set [of fd]
  by (auto simp: form_entry_def bindE_def split: sum.splits option.splits if_splits)

lemma read_form_data_records:
  "read_form_data drv els fd0 w = Inr fd \<Longrightarrow>
   map_of fd = foldl (record_control drv w) (map_of fd0) els"
proof (induction els arbitrary: fd0)
  case Nil
  then show ?case by simp
next
  case (Cons el els)
  then obtain fd1 where st: "form_entry drv el fd0 w = Inr fd1"
    and rest: "read_form_data drv els fd1 w = Inr fd"
    by (auto simp: bindE_def split: sum.splits)
  from Cons.IH [OF rest] form_entry_records [OF st] show ?case by simp
qed

lemma read_form_data_distinct:
  "read_form_data drv els fd0 w = Inr fd \<Longrightarrow> distinct (map fst fd0) \<Longrightarrow> distinct (map fst fd)"
proof (induction els arbitrary: fd0)
  case Nil
  then show ?case by simp
next
  case (Cons el els)
  then obtain fd1 where st: "form_entry drv el fd0 w = Inr fd1"
    and rest: "read_form_data drv els fd1 w = Inr fd"
    by (auto simp: bindE_def split: sum.splits)
  from Cons.IH [OF rest] form_entry_distinct [OF st Cons.prems(2)] show ?case by simp
qed

lemma foldl_record_source:
  "foldl (record_control drv w) m els k = Some v \<Longrightarrow>
   m k = Some v \<or> (\<exists>el\<in>set els. control_key drv el w = Some k \<and> control_state drv el w = Some v)"
proof (induction els arbitrary: m)
  case Nil
  then show ?case by simp
next
  case (Cons el els)
  from Cons.IH [OF Cons.prems [simplified]] show ?case
    by (auto simp: record_control_def split: option.splits if_splits)
qed

lemma foldl_record_untouched:
  "\<forall>y\<in>set ys. control_key drv y w = Some k \<longrightarrow> control_state drv y w = None \<Longrightarrow>
   foldl (record_control drv w) m ys k = m k"
  by (induction ys arbitrary: m) (auto simp: record_control_def split: option.splits)

lemma foldl_record_last:
  assumes "control_key drv el w = Some k" and "control_state drv el w = Some v"
    and "\<forall>y\<in>set ys. control_key drv y w = Some k \<longrightarrow> control_state drv y w = None"
  shows "foldl (record_control drv w) m (xs @ el # ys) k = Some v"
  using assms foldl_record_untouched [of ys drv w k]
  by (simp add: record_control_def)

lemma attempt_submit_asks_about_snapshot:
  assumes "find_element (driver ag) ByXPath sel (doc s) = Inr b"
    and "find_elements (driver ag) ByXPath controls_xpath (doc s) = Inr els"
    and "read_form_data (driver ag) els [] (doc s) = Inr fd"
  shows "attempt_submit ag sel s =
     (case chat ag (VerdictPrompt fd) of
        Failure e \<Rightarrow> (Inl e, s)
      | Content None \<Rightarrow> (Inl TypeError, s)
      | Content (Some d) \<Rightarrow>
          if str_contains d (codes ''PROCEED'')
          then bindP (command (Click b) (click (driver ag) b)) (\<lambda>_. returnP True) s
          else (Inr False, s\<lparr>logged := logged s @ [WarnAdvisedAgainst d]\<rparr>))"
  using assms
  by (simp add: attempt_submit_def ask_def bindP_def query_def raiseP_def returnP_def log_msg_def
      split: completion.splits option.splits)

lemma find_from_absent: "c \<notin> set s \<Longrightarrow> find_from [c] s i = - 1"
  by (induction s arbitrary: i) auto

lemma find_from_first:
  "c \<notin> set line \<Longrightarrow> find_from [c] (line @ c # rest) i = int (i + length line)"
  by (induction line arbitrary: i) auto

lemma rfind_from_absent:
  "\<forall>k. \<not> prefix sub (drop k s) \<Longrightarrow> rfind_from sub s i = - 1"
proof (induction s arbitrary: i)
  case Nil
  from Nil [rule_format, of 0] show ?case by auto
next
  case (Cons c cs)
  have "\<forall>k. \<not> prefix sub (drop k cs)"
  proof
    fix k
    from Cons.prems [rule_format, of "Suc k"] show "\<not> prefix sub (drop k cs)" by simp
  qed
  then have "rfind_from sub cs (Suc i) = - 1" by (rule Cons.IH)
  moreover from Cons.prems [rule_format, of 0] have "\<not> prefix sub (c # cs)" by simp
  ultimately show ?case by (simp add: Let_def)
qed

lemma rfind_from_last:
  assumes "sub \<noteq> []"
    and "\<forall>k>length before. \<not> prefix sub (drop k (before @ sub @ after))"
  shows "rfind_from sub (before @ sub @ after) i = int (i + length before)"
  using assms(2)
proof (induction before arbitrary: i)
  case Nil
  from assms(1) obtain c cs where sub: "sub = c # cs" by (cases sub) auto
  have "\<forall>k. \<not> prefix sub (drop k (cs @ after))"
  proof
    fix k
    from Nil [rule_format, of "Suc k"] show "\<not> prefix sub (drop k (cs @ after))"
      by (simp add: sub)
  qed
  then have "rfind_from sub (cs @ after) (Suc i) = - 1" by (rule rfind_from_absent)
  then show ?case by (simp add: sub Let_def)
next
  case (Cons b before)
  have "\<forall>k>length before. \<not> prefix sub (drop k (before @ sub @ after))"
  proof (intro allI impI)
    fix k
    assume "length before < k"
    with Cons.prems [rule_format, of "Suc k"]
    show "\<not> prefix sub (drop k (before @ sub @ after))" by simp
  qed
  from Cons.IH [OF this, of "Suc i"] show ?case by (simp add: Let_def)
qed

lemma fence_not_empty: "fence \<noteq> []"
  by (simp add: fence_def)

lemma py_rfind_last:
  assumes "c = before @ fence @ after"
    and "\<forall>k>length before. \<not> prefix fence (drop k c)"
  shows "py_rfind c fence = int (length before)"
proof -
  have "\<forall>k>length before. \<not> prefix fence (drop k (before @ fence @ after))"
    using assms(2) unfolding assms(1) .
  with fence_not_empty
  have "rfind_from fence (before @ fence @ after) 0 = int (0 + length before)"
    by (rule rfind_from_last)
  then show ?thesis unfolding py_rfind_def assms(1) by simp
qed

lemma py_slice_inside:
  "lo \<le> length before \<Longrightarrow>
   py_slice (before @ rest) (int lo) (int (length before)) = drop lo before"
  by (simp add: py_slice_def slice_index_def Let_def min_def)

lemma py_slice_before:
  assumes "c = before @ fence @ after" and "lo \<le> length before"
  shows "py_slice c (int lo) (int (length before)) = drop lo before"
  unfolding assms(1) using assms(2) by (rule py_slice_inside)

lemma clean_response_cases:
  assumes c: "strip r = c"
  shows "(\<not> startswith c (fence @ codes ''json'') \<longrightarrow> clean_response r = c) \<and>
   (\<forall>before after.
      startswith c (fence @ codes ''json'') \<and> c = before @ fence @ after \<and>
      (\<forall>k>length before. \<not> prefix fence (drop k c)) \<longrightarrow>
        (\<forall>line rest. c = line @ LF # rest \<and> LF \<notin> set line \<longrightarrow>
           clean_response r =
             (if length line + 1 < length before then strip (drop (length line + 1) before)
              else c)) \<and>
        (LF \<notin> set c \<longrightarrow> clean_response r = (if before \<noteq> [] then strip before else c)))"
proof (intro conjI allI impI)
  assume "\<not> startswith c (fence @ codes ''json'')"
  then show "clean_response r = c" by (simp add: clean_response_def c)
next
  fix before after line rest
  assume h: "startswith c (fence @ codes ''json'') \<and> c = before @ fence @ after \<and>
      (\<forall>k>length before. \<not> prefix fence (drop k c))"
    and l: "c = line @ LF # rest \<and> LF \<notin> set line"
  from h have sw: "startswith c (fence @ codes ''json'')"
    and ceq: "c = before @ fence @ after"
    and last: "\<forall>k>length before. \<not> prefix fence (drop k c)" by blast+
  from l have leq: "c = line @ LF # rest" and fresh: "LF \<notin> set line" by blast+
  have "find_from [LF] (line @ LF # rest) 0 = int (0 + length line)"
    using fresh by (rule find_from_first)
  then have f: "py_find c [LF] + 1 = int (length line + 1)"
    unfolding py_find_def leq by simp
  have e: "py_rfind c fence = int (length before)"
    using ceq last by (rule py_rfind_last)
  show "clean_response r =
             (if length line + 1 < length before then strip (drop (length line + 1) before)
              else c)"
  proof (cases "length line + 1 < length before")
    case True
    then have "length line + 1 \<le> length before" by simp
    with ceq have sl: "py_slice c (int (length line + 1)) (int (length before)) =
        drop (length line + 1) before"
      by (rule py_slice_before)
    have "clean_response r = strip (py_slice c (int (length line + 1)) (int (length before)))"
      unfolding clean_response_def c Let_def f e using sw True by simp
    with sl True show ?thesis by simp
  next
    case False
    have "clean_response r = c"
      unfolding clean_response_def c Let_def f e using sw False by simp
    with False show ?thesis by simp
  qed
next
  fix before after
  assume h: "startswith c (fence @ codes ''json'') \<and> c = before @ fence @ after \<and>
      (\<forall>k>length before. \<not> prefix fence (drop k c))"
    and l: "LF \<notin> set c"
  from h have sw: "startswith c (fence @ codes ''json'')"
    and ceq: "c = before @ fence @ after"
    and last: "\<forall>k>length before. \<not> prefix fence (drop k c)" by blast+
  have "find_from [LF] c 0 = - 1" using l by (rule find_from_absent)
  then have f: "py_find c [LF] + 1 = int 0" by (simp add: py_find_def)
  have e: "py_rfind c fence = int (length before)"
    using ceq last by (rule py_rfind_last)
  have "0 \<le> length before" by simp
  with ceq have "py_slice c (int 0) (int (length before)) = drop 0 before"
    by (rule py_slice_before)
  then have sl: "py_slice c (int 0) (int (length before)) = before" by simp
  show "clean_response r = (if before \<noteq> [] then strip before else c)"
  proof (cases "before = []")
    case True
    have "clean_response r = c"
      unfolding clean_response_def c Let_def f e using sw True by simp
    with True show ?thesis by simp
  next
    case False
    have "clean_response r = strip (py_slice c (int 0) (int (length before)))"
      unfolding clean_response_def c Let_def f e using sw False by simp
    with sl False show ?thesis by simp
  qed
qed


lemma no_fence_in_short_tail: "length c < k + 3 \<Longrightarrow> \<not> prefix fence (drop k c)"
  by (auto dest: prefix_length_le simp: fence_def)

lemma request_mapping_parsed:
  assumes "chat ag (MappingPrompt details) = Content (Some r)"
    and "json_loads ag (clean_response r) = Inr m"
    and "json_dumps ag m = Inr printed"
  shows "request_mapping ag details s1 = (Inr m, s1)"
  using assms by (simp add: request_mapping_def parse_mapping_def ask_def prog_defs)

lemma request_mapping_failure:
  assumes "chat ag (MappingPrompt details) = Failure e"
  shows "request_mapping ag details s1 =
           (Inr (PyOther PNone), s1\<lparr>logged := logged s1 @ [ErrorLLMRequest e]\<rparr>)"
  using assms by (simp add: request_mapping_def ask_def prog_defs)

lemma request_mapping_no_fallback:
  assumes "chat ag (MappingPrompt details) = Content (Some r)"
    and "json_loads ag (clean_response r) = Inl JSONDecodeError"
    and "create_fallback_mapping ag = None"
  shows "request_mapping ag details s1 =
           (Inr (PyOther PNone),
            s1\<lparr>logged := logged s1 @
                  [ErrorJSONParsing JSONDecodeError, ErrorCouldNotParse (clean_response r),
                   ErrorLLMRequest AttributeError]\<rparr>)"
  using assms by (simp add: request_mapping_def parse_mapping_def ask_def prog_defs)

lemma analyze_form_after_introspect:
  "introspect (driver ag) s = (Inr details, s1) \<Longrightarrow>
   analyze_form ag s = request_mapping ag details s1"
  by (simp add: analyze_form_def bindP_def)

lemma introspect_page_form:
  "introspect page_driver (start page_form) =
     (Inr [\<lparr> d_type = Some ''text'', d_id = Some ''first_name'', d_name = None, d_label = [],
              d_placeholder = None, d_parent_text = [] \<rparr>],
      \<lparr> doc = page_form, issued = [], logged = [WarnParentText NoSuchElementException] \<rparr>)"
  by (simp add: introspect_def describe_element_def label_xpath_def prog_defs page_defs)

lemma strip_plain_fenced: "strip plain_fenced = plain_fenced"
  by (simp add: plain_fenced_def fence_def strip_def isspace_def codes_def LF_def)

lemma strip_json_fenced_padded: "strip json_fenced_padded = json_fenced"
  by (simp add: json_fenced_padded_def json_fenced_def fence_def strip_def isspace_def codes_def
      LF_def)

lemma strip_empty_fenced: "strip empty_fenced = empty_fenced"
  by (simp add: empty_fenced_def fence_def strip_def isspace_def codes_def LF_def)


section \<open>Skipping empty values\<close>

text \<open>
  C6.  A key whose value is \<^verbatim>\<open>None\<close> or the empty string costs nothing: its iteration
  returns at once, leaving the browser, the calls issued and the log as they were (no
  click, no clear, no text entry); and the whole fill pass ends in the same state,
  with the same browser and the same calls issued, as the pass over the mapping with
  those keys removed.
\<close>

theorem fill_form_skips_empty_values:
  "(v = PNone \<or> v = PStr [] \<longrightarrow> fill_item drv (k, v) s = (Inr (), s)) \<and>
   fill_form drv (PyDict kvs) s =
     fill_form drv (PyDict (filter (\<lambda>kv. snd kv \<noteq> PNone \<and> snd kv \<noteq> PStr []) kvs)) s"
  using fill_item_skip [of v drv k s] fill_items_filter_skip [of drv kvs s] by simp

theorem fill_form_skips_empty_values_witness:
  "fill_item page_driver (''first_name'', PStr []) (start [text_input ''first_name'' ''Jane'']) =
     (Inr (), start [text_input ''first_name'' ''Jane'']) \<and>
   fill_form page_driver (PyDict [(''first_name'', PNone)]) (start [text_input ''first_name'' ''Jane'']) =
     fill_form page_driver (PyDict []) (start [text_input ''first_name'' ''Jane''])"
  using fill_form_skips_empty_values
    [of "PStr []" page_driver "''first_name''" "start [text_input ''first_name'' ''Jane'']"
        "[(''first_name'', PNone)]"]
  by simp


section \<open>Exceptions stay inside the fill pass\<close>

text \<open>
  C9.  For a mapping that is a dictionary \<^verbatim>\<open>fill_form\<close> never raises, whatever the browser
  does: the pass returns normally; an exception raised while one key is processed
  (looking the element up, reading its type, or injecting the value) is caught by that
  iteration and logged as an error for that key; and after any keys \<open>xs\<close>, whether they
  raised or not, the next key and the remaining ones are processed from the state
  \<open>xs\<close> left.
\<close>

theorem fill_form_never_raises:
  "(\<exists>s'. fill_form drv (PyDict kvs) s = (Inr (), s')) \<and>
   (\<forall>e s1. fill_field drv k v s = (Inl e, s1) \<longrightarrow>
      fill_item drv (k, v) s = (Inr (), s1\<lparr>logged := logged s1 @ [ErrorFillingField k e]\<rparr>)) \<and>
   (\<exists>s1. fill_form drv (PyDict xs) s = (Inr (), s1) \<and>
      fill_form drv (PyDict (xs @ kv # ys)) s =
        bindP (fill_item drv kv) (\<lambda>_. fill_form drv (PyDict ys)) s1)"
proof (intro conjI allI impI)
  show "\<exists>s'. fill_form drv (PyDict kvs) s = (Inr (), s')"
    using fill_items_Inr [of drv kvs s] by simp
next
  fix e s1
  assume "fill_field drv k v s = (Inl e, s1)"
  then show "fill_item drv (k, v) s = (Inr (), s1\<lparr>logged := logged s1 @ [ErrorFillingField k e]\<rparr>)"
    by (rule fill_item_caught)
next
  obtain s1 where s1: "fill_items drv xs s = (Inr (), s1)"
    using fill_items_Inr [of drv xs s] by blast
  have "fill_items drv (xs @ kv # ys) s = bindP (fill_item drv kv) (\<lambda>_. fill_items drv ys) s1"
    using s1 by (simp add: fill_items_append bindP_def)
  with s1 show "\<exists>s1. fill_form drv (PyDict xs) s = (Inr (), s1) \<and>
      fill_form drv (PyDict (xs @ kv # ys)) s =
        bindP (fill_item drv kv) (\<lambda>_. fill_form drv (PyDict ys)) s1"
    by simp
qed

theorem fill_form_never_raises_witness:
  "fill_field page_driver ''go'' (PStr ''x'') (start page_go) =
     (Inl (OtherException ''invalid element state''),
      \<lparr> doc = page_go, issued = [(page_go, Clear 0)], logged = [] \<rparr>) \<and>
   fill_item page_driver (''go'', PStr ''x'') (start page_go) =
     (Inr (), \<lparr> doc = page_go, issued = [(page_go, Clear 0)],
                logged = [ErrorFillingField ''go'' (OtherException ''invalid element state'')] \<rparr>)"
proof -
  have raised: "fill_field page_driver ''go'' (PStr ''x'') (start page_go) =
     (Inl (OtherException ''invalid element state''),
      \<lparr> doc = page_go, issued = [(page_go, Clear 0)], logged = [] \<rparr>)"
    by (simp add: fill_field_def find_field_def inject_def prog_defs page_defs
        button_with_id_def page_go_def)
  from fill_form_never_raises
    [of page_driver "[]" "start page_go" "''go''" "PStr ''x''" "[]" "(''go'', PStr ''x'')" "[]"]
    raised
  show ?thesis by simp
qed


section \<open>Resolution order\<close>





section \<open>Checkboxes\<close>

text \<open>
  C7, as stated, fails: with the truth value of the specification the integer \<open>1\<close>
  denotes false, so an unchecked box already has the target state; the program clicks
  it all the same, because \<^verbatim>\<open>1 in [True, "yes", "Y", "true"]\<close> holds in Python.
\<close>

theorem checkbox_click_despite_matching_state:
  "get_attribute page_driver 0 ''type'' [checkbox ''agree'' False] = Inr (Some ''checkbox'') \<and>
   is_selected page_driver 0 [checkbox ''agree'' False] = Inr (spec_truth_value (PInt 1)) \<and>
   fill_field page_driver ''agree'' (PInt 1) (start [checkbox ''agree'' False]) =
     (Inr (), \<lparr> doc = [checkbox ''agree'' True],
                issued = [([checkbox ''agree'' False], Click 0)], logged = [] \<rparr>)"
  by (simp add: fill_field_def find_field_def inject_def prog_defs page_defs spec_truth_value_def
      checkbox_value_def)

text \<open>
  C7, amended.  When the element found for a key is a checkbox whose checked state
  equals the truth value the program computes for the value (\<^verbatim>\<open>value in [True, "yes",
  "Y", "true"]\<close>), processing the key changes nothing: no click is issued.  That truth
  value is the specification's, extended by the numbers equal to \<^verbatim>\<open>True\<close>: the integer
  \<open>1\<close> and the float \<open>1.0\<close>.
\<close>

theorem checkbox_no_click_when_state_matches:
  assumes "find_field drv k s = (Inr (Some el), s1)"
    and "get_attribute drv el ''type'' (doc s) = Inr (Some ''checkbox'')"
    and "is_selected drv el (doc s) = Inr (checkbox_value v)"
  shows "fill_field drv k v s = (Inr (), s) \<and>
         checkbox_value v = (spec_truth_value v \<or> v = PInt 1 \<or> v = PFloat ''1.0'')"
proof -
  have same: "s1 = s" using find_field_Some [OF assms(1)] .
  have inj: "inject drv k v el s = (Inr (), s)"
    using assms(2,3) by (simp add: inject_def bindP_def query_def returnP_def)
  have "fill_field drv k v s = (Inr (), s)"
  proof (cases "v = PNone \<or> v = PStr []")
    case True
    then show ?thesis by (rule fill_field_skip)
  next
    case False
    then show ?thesis
      using fill_field_found [of v drv k s el s1] assms(1) same inj by simp
  qed
  then show ?thesis using checkbox_value_cases by simp
qed

theorem checkbox_no_click_when_state_matches_witness:
  "fill_field page_driver ''agree'' (PStr ''yes'') (start [checkbox ''agree'' True]) =
     (Inr (), start [checkbox ''agree'' True]) \<and>
   fill_field page_driver ''agree'' (PStr ''no'') (start [checkbox ''agree'' False]) =
     (Inr (), start [checkbox ''agree'' False])"
proof -
  have f1: "find_field page_driver ''agree'' (start [checkbox ''agree'' True]) =
      (Inr (Some 0), start [checkbox ''agree'' True])"
    by (simp add: find_field_def prog_defs page_defs)
  have f2: "find_field page_driver ''agree'' (start [checkbox ''agree'' False]) =
      (Inr (Some 0), start [checkbox ''agree'' False])"
    by (simp add: find_field_def prog_defs page_defs)
  have t1: "get_attribute page_driver 0 ''type'' (doc (start [checkbox ''agree'' True])) =
      Inr (Some ''checkbox'')"
    by (simp add: page_defs)
  have t2: "get_attribute page_driver 0 ''type'' (doc (start [checkbox ''agree'' False])) =
      Inr (Some ''checkbox'')"
    by (simp add: page_defs)
  have c1: "is_selected page_driver 0 (doc (start [checkbox ''agree'' True])) =
      Inr (checkbox_value (PStr ''yes''))"
    by (simp add: page_defs checkbox_value_def)
  have c2: "is_selected page_driver 0 (doc (start [checkbox ''agree'' False])) =
      Inr (checkbox_value (PStr ''no''))"
    by (simp add: page_defs checkbox_value_def)
  from checkbox_no_click_when_state_matches [OF f1 t1 c1]
       checkbox_no_click_when_state_matches [OF f2 t2 c2]
  show ?thesis by simp
qed

text \<open>
  C10.  No click that \<^verbatim>\<open>fill_form\<close> issues ever lands on a checkbox that is checked at the
  moment of the click, whatever the mapping; and a key that resolves to a checked
  checkbox leaves everything as it is, whatever its value (also \<^verbatim>\<open>"no"\<close>, \<^verbatim>\<open>"N"\<close> or
  \<^verbatim>\<open>False\<close>): the filler turns checkboxes on, never off.
\<close>

theorem fill_form_never_clicks_checked_checkbox:
  "(\<forall>r s'. fill_form drv m s = (r, s') \<longrightarrow>
      (\<exists>new. issued s' = issued s @ new \<and>
         (\<forall>x\<in>set new. \<forall>e. snd x = Click e \<longrightarrow> \<not> checked_checkbox drv e (fst x)))) \<and>
   (\<forall>el s1. find_field drv k s = (Inr (Some el), s1) \<and> checked_checkbox drv el (doc s) \<longrightarrow>
      fill_field drv k v s = (Inr (), s))"
proof (intro conjI allI impI)
  fix r s'
  assume run: "fill_form drv m s = (r, s')"
  show "\<exists>new. issued s' = issued s @ new \<and>
         (\<forall>x\<in>set new. \<forall>e. snd x = Click e \<longrightarrow> \<not> checked_checkbox drv e (fst x))"
  proof (cases m)
    case (PyDict kvs)
    with run have "fill_items drv kvs s = (r, s')" by simp
    then show ?thesis by (rule fill_items_issued)
  next
    case (PyOther v)
    with run have "issued s' = issued s @ []" by (simp add: raiseP_def)
    then show ?thesis by (intro exI [of _ "[]"]) simp
  qed
next
  fix el s1
  assume "find_field drv k s = (Inr (Some el), s1) \<and> checked_checkbox drv el (doc s)"
  then show "fill_field drv k v s = (Inr (), s)"
    using fill_field_checked_checkbox by metis
qed

theorem fill_form_never_clicks_checked_checkbox_witness:
  "checked_checkbox page_driver 0 [checkbox ''agree'' True] \<and>
   fill_form page_driver (PyDict [(''agree'', PStr ''no'')]) (start [checkbox ''agree'' True]) =
     (Inr (), start [checkbox ''agree'' True]) \<and>
   fill_form page_driver (PyDict [(''agree'', PBool False)]) (start [checkbox ''agree'' True]) =
     (Inr (), start [checkbox ''agree'' True])"
proof -
  have f: "find_field page_driver ''agree'' (start [checkbox ''agree'' True]) =
      (Inr (Some 0), start [checkbox ''agree'' True])"
    by (simp add: find_field_def prog_defs page_defs)
  have c: "checked_checkbox page_driver 0 (doc (start [checkbox ''agree'' True]))"
    by (simp add: checked_checkbox_def page_defs)
  from fill_form_never_clicks_checked_checkbox
    [of page_driver "PyDict []" "start [checkbox ''agree'' True]" "''agree''" "PStr ''no''"]
    fill_form_never_clicks_checked_checkbox
    [of page_driver "PyDict []" "start [checkbox ''agree'' True]" "''agree''" "PBool False"]
    f c
  show ?thesis by (simp add: fill_item_def catchP_def bindP_def returnP_def start_def)
qed


section \<open>The submission gate is safe by default\<close>

text \<open>
  C2.  \<^verbatim>\<open>submit_form\<close> never raises, and the only calls it issues are clicks on a submit
  control found by one of the ordered selectors, each issued after the oracle, asked
  about the snapshot of the document as it then was, replied with a text containing
  \<^verbatim>\<open>"PROCEED"\<close>; a run that issues no click returns \<^verbatim>\<open>False\<close> and leaves the document
  alone.  Hence, when the oracle does not approve (its reply lacks \<^verbatim>\<open>"PROCEED"\<close>, has no
  text, or the call raises), \<^verbatim>\<open>submit_form\<close> returns \<^verbatim>\<open>False\<close> and no click is issued; and
  when none of the selectors finds a submit control, it returns \<^verbatim>\<open>False\<close>, logs a warning
  and issues nothing.
\<close>

theorem submit_form_gate:
  "(\<forall>r s'. submit_form ag s = (r, s') \<longrightarrow>
      (\<exists>ok new. r = Inr ok \<and> issued s' = issued s @ new \<and>
         (\<forall>x\<in>set new. \<exists>b sel els fd. snd x = Click b \<and> sel \<in> set submit_selectors \<and>
             find_element (driver ag) ByXPath sel (fst x) = Inr b \<and>
             find_elements (driver ag) ByXPath controls_xpath (fst x) = Inr els \<and>
             read_form_data (driver ag) els [] (fst x) = Inr fd \<and>
             approves (chat ag (VerdictPrompt fd))) \<and>
         (new = [] \<longrightarrow> \<not> ok \<and> doc s' = doc s))) \<and>
   ((\<forall>fd. \<not> approves (chat ag (VerdictPrompt fd))) \<longrightarrow>
      (\<exists>s'. submit_form ag s = (Inr False, s') \<and> issued s' = issued s \<and> doc s' = doc s)) \<and>
   ((\<forall>sel\<in>set submit_selectors.
        find_element (driver ag) ByXPath sel (doc s) = Inl NoSuchElementException) \<longrightarrow>
      submit_form ag s = (Inr False, s\<lparr>logged := logged s @ [WarnNoSubmitButton]\<rparr>))"
proof (intro conjI allI impI)
  fix r s'
  assume "submit_form ag s = (r, s')"
  then have "submit_loop ag submit_selectors s = (r, s')" by (simp add: submit_form_def)
  then show "\<exists>ok new. r = Inr ok \<and> issued s' = issued s @ new \<and>
         (\<forall>x\<in>set new. \<exists>b sel els fd. snd x = Click b \<and> sel \<in> set submit_selectors \<and>
             find_element (driver ag) ByXPath sel (fst x) = Inr b \<and>
             find_elements (driver ag) ByXPath controls_xpath (fst x) = Inr els \<and>
             read_form_data (driver ag) els [] (fst x) = Inr fd \<and>
             approves (chat ag (VerdictPrompt fd))) \<and>
         (new = [] \<longrightarrow> \<not> ok \<and> doc s' = doc s)"
    by (rule submit_loop_sound)
next
  assume never: "\<forall>fd. \<not> approves (chat ag (VerdictPrompt fd))"
  obtain r s' where run: "submit_loop ag submit_selectors s = (r, s')"
    by (cases "submit_loop ag submit_selectors s")
  from submit_loop_sound [OF run] obtain ok new where
    a: "r = Inr ok" "issued s' = issued s @ new"
       "\<forall>x\<in>set new. \<exists>b sel els fd. snd x = Click b \<and> sel \<in> set submit_selectors \<and>
             find_element (driver ag) ByXPath sel (fst x) = Inr b \<and>
             find_elements (driver ag) ByXPath controls_xpath (fst x) = Inr els \<and>
             read_form_data (driver ag) els [] (fst x) = Inr fd \<and>
             approves (chat ag (VerdictPrompt fd))"
       "new = [] \<longrightarrow> \<not> ok \<and> doc s' = doc s" by blast
  from a(3) never have "new = []" by (cases new) auto
  with a run show "\<exists>s'. submit_form ag s = (Inr False, s') \<and> issued s' = issued s \<and> doc s' = doc s"
    by (simp add: submit_form_def)
next
  assume "\<forall>sel\<in>set submit_selectors.
        find_element (driver ag) ByXPath sel (doc s) = Inl NoSuchElementException"
  then show "submit_form ag s = (Inr False, s\<lparr>logged := logged s @ [WarnNoSubmitButton]\<rparr>)"
    unfolding submit_form_def by (rule submit_loop_none_found)
qed

theorem submit_form_gate_witness:
  "\<not> approves (Content (Some (codes ''STOP: the e-mail address is missing''))) \<and>
   \<not> approves (Failure (OtherException ''timeout'')) \<and>
   (\<exists>s'. submit_form (test_agent (Content (Some (codes ''STOP: the e-mail address is missing''))))
            (start page_form) = (Inr False, s') \<and> issued s' = [] \<and> doc s' = page_form) \<and>
   (\<exists>s'. submit_form (test_agent (Failure (OtherException ''timeout'')))
            (start page_form) = (Inr False, s') \<and> issued s' = [] \<and> doc s' = page_form) \<and>
   submit_form (test_agent (Content (Some (codes ''PROCEED'')))) (start [text_input ''first_name'' ''Jane'']) =
     (Inr False, \<lparr> doc = [text_input ''first_name'' ''Jane''], issued = [],
                   logged = [WarnNoSubmitButton] \<rparr>) \<and>
   submit_form (test_agent (Content (Some (codes ''PROCEED'')))) (start page_form) =
     (Inr True, \<lparr> doc = page_form, issued = [(page_form, Click 1)], logged = [] \<rparr>)"
proof -
  have stop: "\<forall>fd. \<not> approves (chat (test_agent (Content (Some (codes ''STOP: the e-mail address is missing''))))
      (VerdictPrompt fd))"
    by (simp add: approves_def test_agent_def str_contains_def py_find_def codes_def)
  have fails: "\<forall>fd. \<not> approves (chat (test_agent (Failure (OtherException ''timeout''))) (VerdictPrompt fd))"
    by (simp add: approves_def test_agent_def)
  have none: "\<forall>sel\<in>set submit_selectors.
      find_element (driver (test_agent (Content (Some (codes ''PROCEED''))))) ByXPath sel
        (doc (start [text_input ''first_name'' ''Jane''])) = Inl NoSuchElementException"
    by (simp add: submit_selectors_def test_agent_def page_defs)
  have go: "submit_form (test_agent (Content (Some (codes ''PROCEED'')))) (start page_form) =
     (Inr True, \<lparr> doc = page_form, issued = [(page_form, Click 1)], logged = [] \<rparr>)"
    by (simp add: gate_defs test_agent_def prog_defs page_defs)
  from submit_form_gate
      [of "test_agent (Content (Some (codes ''STOP: the e-mail address is missing'')))" "start page_form"]
    submit_form_gate [of "test_agent (Failure (OtherException ''timeout''))" "start page_form"]
    submit_form_gate
      [of "test_agent (Content (Some (codes ''PROCEED'')))" "start [text_input ''first_name'' ''Jane'']"]
    stop fails none go
  show ?thesis
    by (simp add: start_def approves_def test_agent_def str_contains_def py_find_def codes_def)
qed


section \<open>The snapshot shown to the oracle\<close>

text \<open>
  C3, as stated, fails: a control that has neither an id nor a name, and a radio button
  that is not selected, leave no trace in the snapshot.
\<close>

theorem snapshot_misses_controls:
  "find_elements page_driver ByXPath controls_xpath page_anon = Inr [0, 1] \<and>
   get_attribute page_driver 0 ''value'' page_anon = Inr (Some ''secret'') \<and>
   get_attribute page_driver 1 ''type'' page_anon = Inr (Some ''radio'') \<and>
   is_selected page_driver 1 page_anon = Inr False \<and>
   read_form_data page_driver [0, 1] [] page_anon = Inr []"
  by (simp add: form_entry_def bindE_def page_defs anonymous_input_def radio_def page_anon_def)

text \<open>
  C3, amended.  Let the scan for controls and the reading of their state succeed on the
  document as it is.  Then for whichever selector finds a submit control, the gate asks
  the oracle about the snapshot read from that document, and does so before any click:
  a raising request or a reply without text ends the attempt with the document
  untouched, a reply without \<^verbatim>\<open>"PROCEED"\<close> returns \<^verbatim>\<open>False\<close>, and only an approving reply
  is followed by the click.  The snapshot has one entry per key.  Every entry is the
  state of a control of the scan filed under its key (its id, or else its name): the
  checked state of a checkbox, \<^verbatim>\<open>True\<close> for a selected radio, the value of any other
  control.  And every control that has a key and a recorded state is in the snapshot
  with that state, unless a later control with the same key records a state of its
  own; an unselected radio records nothing and so overwrites nothing.
\<close>

theorem snapshot_records_keyed_controls:
  assumes "find_elements (driver ag) ByXPath controls_xpath (doc s) = Inr els"
    and "read_form_data (driver ag) els [] (doc s) = Inr fd"
  shows
    "(\<forall>sel b. find_element (driver ag) ByXPath sel (doc s) = Inr b \<longrightarrow>
        attempt_submit ag sel s =
          (case chat ag (VerdictPrompt fd) of
             Failure e \<Rightarrow> (Inl e, s)
           | Content None \<Rightarrow> (Inl TypeError, s)
           | Content (Some d) \<Rightarrow>
               if str_contains d (codes ''PROCEED'')
               then bindP (command (Click b) (click (driver ag) b)) (\<lambda>_. returnP True) s
               else (Inr False, s\<lparr>logged := logged s @ [WarnAdvisedAgainst d]\<rparr>))) \<and>
     distinct (map fst fd) \<and>
     (\<forall>k v. map_of fd k = Some v \<longrightarrow>
        (\<exists>el\<in>set els. control_key (driver ag) el (doc s) = Some k \<and>
                      control_state (driver ag) el (doc s) = Some v)) \<and>
     (\<forall>xs el ys k v. els = xs @ el # ys \<and> control_key (driver ag) el (doc s) = Some k \<and>
          control_state (driver ag) el (doc s) = Some v \<and>
          (\<forall>y\<in>set ys. control_key (driver ag) y (doc s) = Some k \<longrightarrow>
                        control_state (driver ag) y (doc s) = None) \<longrightarrow>
        map_of fd k = Some v)"
proof -
  have m: "map_of fd = foldl (record_control (driver ag) (doc s)) Map.empty els"
    using read_form_data_records [OF assms(2)] by simp
  have d: "distinct (map fst fd)"
    using read_form_data_distinct [OF assms(2)] by simp
  show ?thesis
  proof (intro conjI allI impI)
    fix sel b
    assume "find_element (driver ag) ByXPath sel (doc s) = Inr b"
    then show "attempt_submit ag sel s =
          (case chat ag (VerdictPrompt fd) of
             Failure e \<Rightarrow> (Inl e, s)
           | Content None \<Rightarrow> (Inl TypeError, s)
           | Content (Some d) \<Rightarrow>
               if str_contains d (codes ''PROCEED'')
               then bindP (command (Click b) (click (driver ag) b)) (\<lambda>_. returnP True) s
               else (Inr False, s\<lparr>logged := logged s @ [WarnAdvisedAgainst d]\<rparr>))"
      using assms by (rule attempt_submit_asks_about_snapshot)
  next
    show "distinct (map fst fd)" by (rule d)
  next
    fix k v
    assume "map_of fd k = Some v"
    with m foldl_record_source [of "driver ag" "doc s" Map.empty els k v]
    show "\<exists>el\<in>set els. control_key (driver ag) el (doc s) = Some k \<and>
                      control_state (driver ag) el (doc s) = Some v"
      by simp
  next
    fix xs el ys k v
    assume "els = xs @ el # ys \<and> control_key (driver ag) el (doc s) = Some k \<and>
          control_state (driver ag) el (doc s) = Some v \<and>
          (\<forall>y\<in>set ys. control_key (driver ag) y (doc s) = Some k \<longrightarrow>
                        control_state (driver ag) y (doc s) = None)"
    with m foldl_record_last [of "driver ag" el "doc s" k v ys Map.empty xs]
    show "map_of fd k = Some v" by simp
  qed
qed

theorem snapshot_records_keyed_controls_witness:
  "find_elements page_driver ByXPath controls_xpath page_plan = Inr [0, 1] \<and>
   read_form_data page_driver [0, 1] [] page_plan = Inr [(''plan'', PBool True)] \<and>
   control_key page_driver 0 page_plan = Some ''plan'' \<and>
   control_state page_driver 0 page_plan = Some (PBool True) \<and>
   control_key page_driver 1 page_plan = Some ''plan'' \<and>
   control_state page_driver 1 page_plan = None \<and>
   map_of [(''plan'', PBool True)] ''plan'' = Some (PBool True) \<and>
   attempt_submit (test_agent (Content (Some (codes ''PROCEED'')))) ''//button[@type='submit']''
       (start page_plan) =
     (Inr True, \<lparr> doc = page_plan, issued = [(page_plan, Click 2)], logged = [] \<rparr>)"
proof -
  let ?ag = "test_agent (Content (Some (codes ''PROCEED'')))"
  have scan: "find_elements (driver ?ag) ByXPath controls_xpath (doc (start page_plan)) = Inr [0, 1]"
    by (simp add: test_agent_def page_defs radio_named_def page_plan_def)
  have snap: "read_form_data (driver ?ag) [0, 1] [] (doc (start page_plan)) =
      Inr [(''plan'', PBool True)]"
    by (simp add: test_agent_def form_entry_def bindE_def page_defs radio_named_def page_plan_def)
  have button: "find_element (driver ?ag) ByXPath ''//button[@type='submit']'' (doc (start page_plan)) =
      Inr 2"
    by (simp add: test_agent_def page_defs radio_named_def page_plan_def)
  have k0: "control_key (driver ?ag) 0 (doc (start page_plan)) = Some ''plan''"
    by (simp add: test_agent_def control_key_def attribute_text_def page_defs radio_named_def
        page_plan_def)
  have s0: "control_state (driver ?ag) 0 (doc (start page_plan)) = Some (PBool True)"
    by (simp add: test_agent_def control_state_def page_defs radio_named_def page_plan_def)
  have k1: "control_key (driver ?ag) 1 (doc (start page_plan)) = Some ''plan''"
    by (simp add: test_agent_def control_key_def attribute_text_def page_defs radio_named_def
        page_plan_def)
  have s1: "control_state (driver ?ag) 1 (doc (start page_plan)) = None"
    by (simp add: test_agent_def control_state_def page_defs radio_named_def page_plan_def)
  note inst = snapshot_records_keyed_controls [OF scan snap]
  have later: "\<forall>y\<in>set [1]. control_key (driver ?ag) y (doc (start page_plan)) = Some ''plan'' \<longrightarrow>
      control_state (driver ?ag) y (doc (start page_plan)) = None"
  proof (intro ballI impI)
    fix y :: nat
    assume "y \<in> set [1]"
    then have "y = 1" by simp
    with s1 show "control_state (driver ?ag) y (doc (start page_plan)) = None" by simp
  qed
  have parts: "[0, 1] = [] @ (0::nat) # [1]" by simp
  have entry: "map_of [(''plan'', PBool True)] ''plan'' = Some (PBool True)"
    using inst [THEN conjunct2, THEN conjunct2, THEN conjunct2, rule_format,
        of "[]" 0 "[1]" "''plan''" "PBool True"] parts k0 s0 later
    by blast
  have approved: "str_contains (codes ''PROCEED'') (codes ''PROCEED'')"
    by (simp add: str_contains_def py_find_def codes_def)
  have reply: "chat ?ag (VerdictPrompt [(''plan'', PBool True)]) = Content (Some (codes ''PROCEED''))"
    by (simp add: test_agent_def)
  have click: "bindP (command (Click 2) (click (driver ?ag) 2)) (\<lambda>_. returnP True) (start page_plan) =
     (Inr True, \<lparr> doc = page_plan, issued = [(page_plan, Click 2)], logged = [] \<rparr>)"
    by (simp add: test_agent_def prog_defs page_defs radio_named_def page_plan_def)
  have gate: "attempt_submit ?ag ''//button[@type='submit']'' (start page_plan) =
     (Inr True, \<lparr> doc = page_plan, issued = [(page_plan, Click 2)], logged = [] \<rparr>)"
    using inst [THEN conjunct1, rule_format, OF button] reply approved click by simp
  from scan snap k0 s0 k1 s1 entry gate show ?thesis
    by (simp add: test_agent_def start_def)
qed


section \<open>The reply of the oracle in the mapping phase\<close>

text \<open>
  C8, as stated, fails: a reply wrapped in a plain code fence, without the \<^verbatim>\<open>json\<close> tag,
  reaches \<^verbatim>\<open>json.loads\<close> with its fences, so the object inside is not parsed.
\<close>

theorem plain_fence_is_not_stripped:
  "clean_response plain_fenced = plain_fenced \<and>
   json_loads (test_agent (Content (Some plain_fenced))) (codes ''{}'') = Inr (PyDict []) \<and>
   analyze_form (test_agent (Content (Some plain_fenced))) (start page_form) =
     (Inr (PyOther PNone),
      \<lparr> doc = page_form, issued = [],
        logged = [WarnParentText NoSuchElementException, ErrorJSONParsing JSONDecodeError,
                  ErrorCouldNotParse plain_fenced, ErrorLLMRequest AttributeError] \<rparr>)"
proof -
  let ?ag = "test_agent (Content (Some plain_fenced))"
  have "\<not> startswith plain_fenced (fence @ codes ''json'')"
    by (simp add: startswith_def plain_fenced_def fence_def codes_def LF_def)
  then have cl: "clean_response plain_fenced = plain_fenced"
    by (simp add: clean_response_def strip_plain_fenced)
  have i: "introspect (driver ?ag) (start page_form) =
     (Inr [\<lparr> d_type = Some ''text'', d_id = Some ''first_name'', d_name = None, d_label = [],
              d_placeholder = None, d_parent_text = [] \<rparr>],
      \<lparr> doc = page_form, issued = [], logged = [WarnParentText NoSuchElementException] \<rparr>)"
    using introspect_page_form by (simp add: test_agent_def)
  have c: "chat ?ag (MappingPrompt [\<lparr> d_type = Some ''text'', d_id = Some ''first_name'',
      d_name = None, d_label = [], d_placeholder = None, d_parent_text = [] \<rparr>]) =
      Content (Some plain_fenced)"
    by (simp add: test_agent_def)
  have l: "json_loads ?ag (clean_response plain_fenced) = Inl JSONDecodeError"
    unfolding cl by (simp add: test_agent_def loads_table_def plain_fenced_def fence_def codes_def)
  have n: "create_fallback_mapping ?ag = None"
    by (simp add: test_agent_def)
  have "analyze_form ?ag (start page_form) =
     (Inr (PyOther PNone),
      \<lparr> doc = page_form, issued = [],
        logged = [WarnParentText NoSuchElementException, ErrorJSONParsing JSONDecodeError,
                  ErrorCouldNotParse plain_fenced, ErrorLLMRequest AttributeError] \<rparr>)"
    using analyze_form_after_introspect [OF i] request_mapping_no_fallback [OF c l n] cl
    by simp
  moreover have "json_loads ?ag (codes ''{}'') = Inr (PyDict [])"
    by (simp add: test_agent_def loads_table_def)
  ultimately show ?thesis using cl by simp
qed

text \<open>
  C8, amended.  Let \<open>c\<close> be the reply without its surrounding whitespace.  If \<open>c\<close> does
  not start with the fence followed by \<^verbatim>\<open>json\<close>, \<open>c\<close> itself is parsed.  Otherwise let
  \<open>before\<close> be what precedes the last fence in \<open>c\<close>.  If \<open>c\<close> has a line feed, and \<open>before\<close>
  reaches at least one character beyond the first line feed, the text parsed is
  \<open>before\<close> without its first line, trimmed; if \<open>before\<close> ends at the first line feed or
  earlier, \<open>c\<close> is parsed as it is.  If \<open>c\<close> has no line feed, \<open>before\<close>, trimmed, is
  parsed when it is not empty, and \<open>c\<close> otherwise.  Whenever \<^verbatim>\<open>json.loads\<close> accepts the
  text so cleaned and \<^verbatim>\<open>json.dumps\<close> prints the parsed object for the log,
  \<^verbatim>\<open>analyze_form\<close> returns the parsed object as it is, whatever the elements found on
  the page, and logs nothing more.
\<close>

theorem json_fence_is_stripped_and_parse_returned:
  assumes "strip r = c"
  shows
  "(\<not> startswith c (fence @ codes ''json'') \<longrightarrow> clean_response r = c) \<and>
   (\<forall>before after.
      startswith c (fence @ codes ''json'') \<and> c = before @ fence @ after \<and>
      (\<forall>k>length before. \<not> prefix fence (drop k c)) \<longrightarrow>
        (\<forall>line rest. c = line @ LF # rest \<and> LF \<notin> set line \<longrightarrow>
           clean_response r =
             (if length line + 1 < length before then strip (drop (length line + 1) before)
              else c)) \<and>
        (LF \<notin> set c \<longrightarrow> clean_response r = (if before \<noteq> [] then strip before else c))) \<and>
   (\<forall>details s1 m printed. introspect (driver ag) s = (Inr details, s1) \<and>
        chat ag (MappingPrompt details) = Content (Some r) \<and>
        json_loads ag (clean_response r) = Inr m \<and> json_dumps ag m = Inr printed \<longrightarrow>
      analyze_form ag s = (Inr m, s1))"
proof -
  have returned: "\<forall>details s1 m printed. introspect (driver ag) s = (Inr details, s1) \<and>
        chat ag (MappingPrompt details) = Content (Some r) \<and>
        json_loads ag (clean_response r) = Inr m \<and> json_dumps ag m = Inr printed \<longrightarrow>
      analyze_form ag s = (Inr m, s1)"
    using analyze_form_after_introspect request_mapping_parsed by metis
  note cleaned = clean_response_cases [OF assms]
  show ?thesis
    by (rule conjI [OF cleaned [THEN conjunct1] conjI [OF cleaned [THEN conjunct2] returned]])
qed

theorem json_fence_is_stripped_and_parse_returned_witness:
  "strip json_fenced_padded = json_fenced \<and>
   clean_response json_fenced_padded = codes ''{}'' \<and>
   clean_response empty_fenced = empty_fenced \<and>
   analyze_form (test_agent (Content (Some json_fenced_padded))) (start page_form) =
     (Inr (PyDict []),
      \<lparr> doc = page_form, issued = [], logged = [WarnParentText NoSuchElementException] \<rparr>)"
proof -
  let ?ag = "test_agent (Content (Some json_fenced_padded))"
  let ?before = "fence @ codes ''json'' @ [LF] @ codes ''{}'' @ [LF]"
  let ?line = "fence @ codes ''json''"
  note inst = json_fence_is_stripped_and_parse_returned
    [OF strip_json_fenced_padded, of ?ag "start page_form"]
  note edge = json_fence_is_stripped_and_parse_returned
    [OF strip_empty_fenced, of ?ag "start page_form"]
  have sw: "startswith json_fenced (fence @ codes ''json'')"
    by (simp add: startswith_def json_fenced_def)
  have parts: "json_fenced = ?before @ fence @ []"
    by (simp add: json_fenced_def)
  have lines: "json_fenced = ?line @ LF # (codes ''{}'' @ [LF] @ fence)"
    by (simp add: json_fenced_def)
  have fresh: "LF \<notin> set ?line"
    by (simp add: fence_def codes_def LF_def)
  have last: "\<forall>k>length ?before. \<not> prefix fence (drop k json_fenced)"
  proof (intro allI impI)
    fix k
    assume "length ?before < k"
    then have "length json_fenced < k + 3"
      by (simp add: json_fenced_def fence_def codes_def)
    then show "\<not> prefix fence (drop k json_fenced)" by (rule no_fence_in_short_tail)
  qed
  have "clean_response json_fenced_padded =
      (if length ?line + 1 < length ?before then strip (drop (length ?line + 1) ?before)
       else json_fenced)"
    using inst [THEN conjunct2, THEN conjunct1, rule_format, of ?before "[]", THEN conjunct1,
        rule_format, of ?line "codes ''{}'' @ [LF] @ fence"]
      sw parts lines fresh last
    by blast
  then have cl: "clean_response json_fenced_padded = codes ''{}''"
    by (simp add: fence_def codes_def LF_def strip_def isspace_def)
  have sw': "startswith empty_fenced (fence @ codes ''json'')"
    by (simp add: startswith_def empty_fenced_def)
  have parts': "empty_fenced = (?line @ [LF]) @ fence @ []"
    by (simp add: empty_fenced_def)
  have lines': "empty_fenced = ?line @ LF # fence"
    by (simp add: empty_fenced_def)
  have last': "\<forall>k>length (?line @ [LF]). \<not> prefix fence (drop k empty_fenced)"
  proof (intro allI impI)
    fix k
    assume "length (?line @ [LF]) < k"
    then have "length empty_fenced < k + 3"
      by (simp add: empty_fenced_def fence_def codes_def)
    then show "\<not> prefix fence (drop k empty_fenced)" by (rule no_fence_in_short_tail)
  qed
  have "clean_response empty_fenced =
      (if length ?line + 1 < length (?line @ [LF]) then strip (drop (length ?line + 1) (?line @ [LF]))
       else empty_fenced)"
    using edge [THEN conjunct2, THEN conjunct1, rule_format, of "?line @ [LF]" "[]", THEN conjunct1,
        rule_format, of ?line fence]
      sw' parts' lines' fresh last'
    by blast
  then have cl': "clean_response empty_fenced = empty_fenced"
    by simp
  have i: "introspect (driver ?ag) (start page_form) =
     (Inr [\<lparr> d_type = Some ''text'', d_id = Some ''first_name'', d_name = None, d_label = [],
              d_placeholder = None, d_parent_text = [] \<rparr>],
      \<lparr> doc = page_form, issued = [], logged = [WarnParentText NoSuchElementException] \<rparr>)"
    using introspect_page_form by (simp add: test_agent_def)
  have c: "chat ?ag (MappingPrompt [\<lparr> d_type = Some ''text'', d_id = Some ''first_name'',
      d_name = None, d_label = [], d_placeholder = None, d_parent_text = [] \<rparr>]) =
      Content (Some json_fenced_padded)"
    by (simp add: test_agent_def)
  have l: "json_loads ?ag (clean_response json_fenced_padded) = Inr (PyDict [])"
    unfolding cl by (simp add: test_agent_def loads_table_def)
  have d: "json_dumps ?ag (PyDict []) = Inr (codes ''{}'')"
    by (simp add: test_agent_def)
  have "analyze_form ?ag (start page_form) =
     (Inr (PyDict []),
      \<lparr> doc = page_form, issued = [], logged = [WarnParentText NoSuchElementException] \<rparr>)"
    using inst [THEN conjunct2, THEN conjunct2, rule_format] i c l d by blast
  with cl cl' strip_json_fenced_padded show ?thesis by simp
qed

text \<open>
  C4.  When the request to the oracle raises in the mapping phase, \<^verbatim>\<open>analyze_form\<close>
  catches the exception, logs it, and returns \<^verbatim>\<open>None\<close>; the heuristic fallback plays no
  part, since the result is the same whatever \<^verbatim>\<open>create_fallback_mapping\<close> the agent
  has.
\<close>

theorem analyze_form_request_failure:
  assumes "introspect (driver ag) s = (Inr details, s1)"
    and "chat ag (MappingPrompt details) = Failure e"
  shows "analyze_form ag s =
           (Inr (PyOther PNone), s1\<lparr>logged := logged s1 @ [ErrorLLMRequest e]\<rparr>) \<and>
         analyze_form (ag\<lparr>create_fallback_mapping := fallback\<rparr>) s = analyze_form ag s"
proof -
  have a: "analyze_form ag s =
           (Inr (PyOther PNone), s1\<lparr>logged := logged s1 @ [ErrorLLMRequest e]\<rparr>)"
    using assms analyze_form_after_introspect request_mapping_failure by metis
  have "introspect (driver (ag\<lparr>create_fallback_mapping := fallback\<rparr>)) s = (Inr details, s1)"
    using assms(1) by simp
  moreover have "chat (ag\<lparr>create_fallback_mapping := fallback\<rparr>) (MappingPrompt details) = Failure e"
    using assms(2) by simp
  ultimately have "analyze_form (ag\<lparr>create_fallback_mapping := fallback\<rparr>) s =
           (Inr (PyOther PNone), s1\<lparr>logged := logged s1 @ [ErrorLLMRequest e]\<rparr>)"
    using analyze_form_after_introspect request_mapping_failure by metis
  with a show ?thesis by simp
qed

theorem analyze_form_request_failure_witness:
  "analyze_form (test_agent (Failure (OtherException ''connection refused''))) (start page_form) =
     (Inr (PyOther PNone),
      \<lparr> doc = page_form, issued = [],
        logged = [WarnParentText NoSuchElementException,
                  ErrorLLMRequest (OtherException ''connection refused'')] \<rparr>) \<and>
   analyze_form ((test_agent (Failure (OtherException ''connection refused'')))
        \<lparr>create_fallback_mapping := Some (\<lambda>details. Inr (PyDict []))\<rparr>) (start page_form) =
     (Inr (PyOther PNone),
      \<lparr> doc = page_form, issued = [],
        logged = [WarnParentText NoSuchElementException,
                  ErrorLLMRequest (OtherException ''connection refused'')] \<rparr>)"
proof -
  have i: "introspect (driver (test_agent (Failure (OtherException ''connection refused''))))
      (start page_form) =
     (Inr [\<lparr> d_type = Some ''text'', d_id = Some ''first_name'', d_name = None, d_label = [],
              d_placeholder = None, d_parent_text = [] \<rparr>],
      \<lparr> doc = page_form, issued = [], logged = [WarnParentText NoSuchElementException] \<rparr>)"
    using introspect_page_form by (simp add: test_agent_def)
  have c: "chat (test_agent (Failure (OtherException ''connection refused'')))
      (MappingPrompt [\<lparr> d_type = Some ''text'', d_id = Some ''first_name'', d_name = None, d_label = [],
              d_placeholder = None, d_parent_text = [] \<rparr>]) =
      Failure (OtherException ''connection refused'')"
    by (simp add: test_agent_def)
  from analyze_form_request_failure [OF i c, of "Some (\<lambda>details. Inr (PyDict []))"]
  show ?thesis by simp
qed

text \<open>
  C1.  The claim promises a usable mapping from the heuristic fallback when the reply
  is not JSON.  On an agent as the program makes it the fallback does not exist: the
  lookup of \<^verbatim>\<open>create_fallback_mapping\<close> raises \<open>AttributeError\<close>, the outer handler logs
  it, and \<^verbatim>\<open>analyze_form\<close> returns \<^verbatim>\<open>None\<close>, on which \<^verbatim>\<open>fill_form\<close> raises.
\<close>

text \<open>
  C1.  The claim promises a usable mapping from the heuristic fallback when the reply
  is not JSON.  On an agent as the program makes it the fallback does not exist: the
  lookup of \<^verbatim>\<open>create_fallback_mapping\<close> raises \<open>AttributeError\<close>, the outer handler logs
  it, and \<^verbatim>\<open>analyze_form\<close> returns \<^verbatim>\<open>None\<close>, on which \<^verbatim>\<open>fill_form\<close> raises.
\<close>

theorem analyze_form_unparsable_reply:
  assumes "introspect (driver ag) s = (Inr details, s1)"
    and "chat ag (MappingPrompt details) = Content (Some r)"
    and "json_loads ag (clean_response r) = Inl JSONDecodeError"
    and "create_fallback_mapping ag = None"
  shows "analyze_form ag s =
           (Inr (PyOther PNone),
            s1\<lparr>logged := logged s1 @
                  [ErrorJSONParsing JSONDecodeError, ErrorCouldNotParse (clean_response r),
                   ErrorLLMRequest AttributeError]\<rparr>) \<and>
         fill_form (driver ag) (PyOther PNone) s2 = (Inl AttributeError, s2)"
  using assms analyze_form_after_introspect [of ag s details s1]
    request_mapping_no_fallback [of ag details r s1]
  by (simp add: raiseP_def)

theorem analyze_form_unparsable_reply_witness:
  "analyze_form (test_agent (Content (Some (codes ''I cannot help with that.'')))) (start page_form) =
     (Inr (PyOther PNone),
      \<lparr> doc = page_form, issued = [],
        logged = [WarnParentText NoSuchElementException,
                  ErrorJSONParsing JSONDecodeError,
                  ErrorCouldNotParse (codes ''I cannot help with that.''),
                  ErrorLLMRequest AttributeError] \<rparr>) \<and>
   fill_form page_driver (PyOther PNone) (start page_form) = (Inl AttributeError, start page_form)"
proof -
  have i: "introspect (driver (test_agent (Content (Some (codes ''I cannot help with that.'')))))
      (start page_form) =
     (Inr [\<lparr> d_type = Some ''text'', d_id = Some ''first_name'', d_name = None, d_label = [],
              d_placeholder = None, d_parent_text = [] \<rparr>],
      \<lparr> doc = page_form, issued = [], logged = [WarnParentText NoSuchElementException] \<rparr>)"
    using introspect_page_form by (simp add: test_agent_def)
  have c: "chat (test_agent (Content (Some (codes ''I cannot help with that.''))))
      (MappingPrompt [\<lparr> d_type = Some ''text'', d_id = Some ''first_name'', d_name = None, d_label = [],
              d_placeholder = None, d_parent_text = [] \<rparr>]) =
      Content (Some (codes ''I cannot help with that.''))"
    by (simp add: test_agent_def)
  have cl: "clean_response (codes ''I cannot help with that.'') = codes ''I cannot help with that.''"
    by (simp add: clean_response_def strip_def startswith_def isspace_def fence_def codes_def)
  have l: "json_loads (test_agent (Content (Some (codes ''I cannot help with that.''))))
      (clean_response (codes ''I cannot help with that.'')) = Inl JSONDecodeError"
    unfolding cl by (simp add: test_agent_def loads_table_def codes_def)
  have n: "create_fallback_mapping (test_agent (Content (Some (codes ''I cannot help with that.'')))) = None"
    by (simp add: test_agent_def)
  from analyze_form_unparsable_reply [OF i c l n, of "start page_form"] cl
  show ?thesis by (simp add: test_agent_def)
qed

end
